theory Spec2Isabelle
  imports
    Complex_Main
    "HOL-Library.Sublist"
    "HOL-Library.Multiset"
    "HOL-Library.Char_ord"
    "HOL-Library.List_Lexorder"
    "HOL-Library.Product_Lexorder"
begin

section \<open>Data model of \<^verbatim>\<open>backend/data_processor.py\<close>\<close>

text \<open>
  A row of the sales table, with the seven columns and the types that \<^verbatim>\<open>load_data\<close>
  passes to \<^verbatim>\<open>pl.read_csv\<close>; the type of the date is left open, since the rows of
  \<^verbatim>\<open>get_table_data\<close> carry it as a string. An \<^verbatim>\<open>Int64\<close> cell is an \<open>int\<close>, and the
  sum of an \<^verbatim>\<open>Int64\<close> column wraps round at 64 bits (\<open>int64\<close> below); \<^verbatim>\<open>Float64\<close> is
  \<open>real\<close> (no rounding, no NaN), \<^verbatim>\<open>Utf8\<close> is \<open>string\<close>, and a \<^verbatim>\<open>pl.Date\<close> is the triple
  (year, month, day), ordered lexicographically. Null cells are not modelled.

  A file may have columns beyond the seven: \<^verbatim>\<open>read_csv\<close> keeps them, with the type it
  infers, and \<open>extra\<close> gives the cell of a row in the column of a name.
\<close>

type_synonym date = "int \<times> int \<times> int"

definition dt_year :: "date \<Rightarrow> int" where
  "dt_year d = fst d"

definition dt_month :: "date \<Rightarrow> int" where
  "dt_month d = fst (snd d)"

definition dt_day :: "date \<Rightarrow> int" where
  "dt_day d = snd (snd d)"

datatype cell = Int_Cell int | Float_Cell real | Str_Cell string | Date_Cell date

record 'd sale_row =
  Sale_ID :: int
  Date :: 'd
  Units_Sold :: int
  Price_Per_Unit :: real
  Revenue :: real
  Region :: string
  Sales_Channel :: string
  extra :: "string \<Rightarrow> cell"

type_synonym sale = "date sale_row"

text \<open>
  The 64-bit two's complement value of an integer: what a sum of \<^verbatim>\<open>Int64\<close> cells is
  in polars, which adds with wrap-around.
\<close>

definition int64 :: "int \<Rightarrow> int" where
  "int64 x = (x + 2 ^ 63) mod 2 ^ 64 - 2 ^ 63"

text \<open>
  A polars \<^verbatim>\<open>DataFrame\<close>: the names of its columns and its rows in order. A field of
  a row whose column the frame lacks carries no meaning, and every query that reads a
  column the frame lacks raises \<^verbatim>\<open>ColumnNotFoundError\<close>, as polars does.
\<close>

record frame =
  columns :: "string list"
  rows :: "sale list"

definition has_columns :: "string list \<Rightarrow> frame \<Rightarrow> bool" where
  "has_columns cs f = list_all (\<lambda>c. c \<in> set (columns f)) cs"

definition required_columns :: "string list" where
  "required_columns =
     [''Sale_ID'', ''Date'', ''Units_Sold'', ''Price_Per_Unit'', ''Revenue'',
      ''Region'', ''Sales_Channel'']"

text \<open>The exceptions the code can raise, as values.\<close>

datatype error =
  ColumnNotFoundError | TypeError | ValueError | ZeroDivisionError | FileNotFoundError
  | ComputeError | AttributeError | KeyError | OverflowError | InvalidOperationError

text \<open>\<^verbatim>\<open>class DataProcessor\<close>: \<open>df = None\<close> is "no dataset loaded".\<close>

record processor =
  csv_path :: string
  df :: "frame option"

section \<open>Filtering\<close>

text \<open>
  The \<^verbatim>\<open>filters\<close> dictionary. \<open>None\<close> is a key that is absent (or whose value is
  \<^verbatim>\<open>None\<close>). A date criterion is what the caller put there: the string of the request,
  which is all that the two routes can pass, or a \<^verbatim>\<open>datetime.date\<close>. The lists keep
  their own emptiness, which the guards of \<^verbatim>\<open>filter_data\<close> test.
\<close>

datatype date_value = Date_String string | Date_Object date

record filters =
  start_date :: "date_value option"
  end_date :: "date_value option"
  regions :: "string list option"
  channels :: "string list option"
  min_price :: "real option"
  max_price :: "real option"

definition no_filters :: filters where
  "no_filters =
     \<lparr>start_date = None, end_date = None, regions = None, channels = None,
      min_price = None, max_price = None\<rparr>"

text \<open>\<^verbatim>\<open>filtered_df.filter(expr)\<close>: the rows on which the expression holds, in order.\<close>

definition df_filter :: "(sale \<Rightarrow> bool) \<Rightarrow> frame \<Rightarrow> frame" where
  "df_filter P f = f\<lparr>rows := filter P (rows f)\<rparr>"

text \<open>
  One guarded step of \<^verbatim>\<open>filter_data\<close>. The criterion is \<open>None\<close> when the guard
  of the \<^verbatim>\<open>if\<close> fails, and then the column is not looked up. Otherwise it is
  the value the column is compared with, or the error that the comparison raises.
\<close>

definition filter_step ::
  "(error + 'a) option \<Rightarrow> string \<Rightarrow> ('a \<Rightarrow> sale \<Rightarrow> bool) \<Rightarrow> error + frame
     \<Rightarrow> error + frame" where
  "filter_step crit c P r =
     (case r of
        Inl e \<Rightarrow> Inl e
      | Inr f \<Rightarrow>
          (case crit of
             None \<Rightarrow> Inr f
           | Some v \<Rightarrow>
               if \<not> has_columns [c] f then Inl ColumnNotFoundError
               else (case v of Inl e \<Rightarrow> Inl e | Inr x \<Rightarrow> Inr (df_filter (P x) f))))"

text \<open>
  \<^verbatim>\<open>'start_date' in filters and filters['start_date']\<close>, and the comparison of the
  \<^verbatim>\<open>Date\<close> column with the value: an empty string is false in Python, so the guard
  fails on it; any other string makes polars raise, since it does not compare a date
  column with a string (\<^verbatim>\<open>InvalidOperationError\<close>, a \<^verbatim>\<open>ComputeError\<close> in older
  versions); a \<^verbatim>\<open>datetime.date\<close> is compared.
\<close>

definition date_criterion :: "date_value option \<Rightarrow> (error + date) option" where
  "date_criterion v =
     (case v of
        None \<Rightarrow> None
      | Some (Date_String s) \<Rightarrow> if s = [] then None else Some (Inl InvalidOperationError)
      | Some (Date_Object d) \<Rightarrow> Some (Inr d))"

text \<open>
  \<^verbatim>\<open>'regions' in filters and filters['regions']\<close>: a list that is present and empty is
  false in Python, so the guard fails on it.
\<close>

definition truthy_list :: "'a list option \<Rightarrow> 'a list option" where
  "truthy_list v = (case v of None \<Rightarrow> None | Some xs \<Rightarrow> if xs = [] then None else Some xs)"

definition filter_data :: "processor \<Rightarrow> filters \<Rightarrow> error + frame option" where
  "filter_data p fs =
     (case df p of
        None \<Rightarrow> Inr None
      | Some f0 \<Rightarrow>
          (let r1 = filter_step (date_criterion (start_date fs)) ''Date''
                      (\<lambda>d r. d \<le> Date r) (Inr f0);
               r2 = filter_step (date_criterion (end_date fs)) ''Date''
                      (\<lambda>d r. Date r \<le> d) r1;
               r3 = filter_step (map_option Inr (truthy_list (regions fs))) ''Region''
                      (\<lambda>rs r. Region r \<in> set rs) r2;
               r4 = filter_step (map_option Inr (truthy_list (channels fs))) ''Sales_Channel''
                      (\<lambda>cs r. Sales_Channel r \<in> set cs) r3;
               r5 = filter_step (map_option Inr (min_price fs)) ''Price_Per_Unit''
                      (\<lambda>m r. m \<le> Price_Per_Unit r) r4;
               r6 = filter_step (map_option Inr (max_price fs)) ''Price_Per_Unit''
                      (\<lambda>m r. Price_Per_Unit r \<le> m) r5
           in case r6 of Inl e \<Rightarrow> Inl e | Inr f \<Rightarrow> Inr (Some f)))"

text \<open>
  The predicate of the specification: a record passes when it satisfies every criterion
  that is in force, a list criterion being in force when it is present and not empty
  and a date criterion when it is a date.
\<close>

definition accepts :: "filters \<Rightarrow> sale \<Rightarrow> bool" where
  "accepts fs r \<longleftrightarrow>
     (case start_date fs of Some (Date_Object d) \<Rightarrow> d \<le> Date r | _ \<Rightarrow> True) \<and>
     (case end_date fs of Some (Date_Object d) \<Rightarrow> Date r \<le> d | _ \<Rightarrow> True) \<and>
     (case regions fs of None \<Rightarrow> True | Some rs \<Rightarrow> rs = [] \<or> Region r \<in> set rs) \<and>
     (case channels fs of None \<Rightarrow> True | Some cs \<Rightarrow> cs = [] \<or> Sales_Channel r \<in> set cs) \<and>
     (case min_price fs of None \<Rightarrow> True | Some m \<Rightarrow> m \<le> Price_Per_Unit r) \<and>
     (case max_price fs of None \<Rightarrow> True | Some m \<Rightarrow> Price_Per_Unit r \<le> m)"

section \<open>The polars operations the queries use\<close>

text \<open>
  \<^verbatim>\<open>sort\<close>: insertion into a sorted list, from the right, by a comparison. Polars leaves the
  order of rows with equal keys open; the model keeps their order, and no statement
  below depends on it.
\<close>

fun insert_by :: "('a \<Rightarrow> 'a \<Rightarrow> bool) \<Rightarrow> 'a \<Rightarrow> 'a list \<Rightarrow> 'a list" where
  "insert_by le x [] = [x]"
| "insert_by le x (y # ys) = (if le x y then x # y # ys else y # insert_by le x ys)"

definition df_sort :: "('a \<Rightarrow> 'a \<Rightarrow> bool) \<Rightarrow> 'a list \<Rightarrow> 'a list" where
  "df_sort le xs = foldr (insert_by le) xs []"

text \<open>\<open>descending=True\<close> turns the comparison round.\<close>

definition direction :: "bool \<Rightarrow> ('a \<Rightarrow> 'a \<Rightarrow> bool) \<Rightarrow> 'a \<Rightarrow> 'a \<Rightarrow> bool" where
  "direction descending le = (if descending then (\<lambda>a b. le b a) else le)"

text \<open>
  \<^verbatim>\<open>group_by\<close>: one group per distinct key, holding the rows of that key in order. The
  order of the groups is polars' choice; every query sorts them afterwards.
\<close>

definition group_by :: "('a \<Rightarrow> 'k) \<Rightarrow> 'a list \<Rightarrow> ('k \<times> 'a list) list" where
  "group_by k xs = map (\<lambda>v. (v, filter (\<lambda>x. k x = v) xs)) (remdups (map k xs))"

text \<open>\<^verbatim>\<open>mean\<close>, \<^verbatim>\<open>min\<close> and \<^verbatim>\<open>max\<close> of a column are \<^verbatim>\<open>None\<close> on no rows.\<close>

definition series_mean :: "real list \<Rightarrow> real option" where
  "series_mean xs = (if xs = [] then None else Some (sum_list xs / real (length xs)))"

definition series_min :: "'a::linorder list \<Rightarrow> 'a option" where
  "series_min xs = (case xs of [] \<Rightarrow> None | x # ys \<Rightarrow> Some (fold min ys x))"

definition series_max :: "'a::linorder list \<Rightarrow> 'a option" where
  "series_max xs = (case xs of [] \<Rightarrow> None | x # ys \<Rightarrow> Some (fold max ys x))"

text \<open>
  \<^verbatim>\<open>slice(offset, length)\<close>. The Python method replaces a negative length by
  \<^verbatim>\<open>height - offset + length\<close>; the offset is then converted to a signed and the length
  to an unsigned 64-bit integer, which raises \<^verbatim>\<open>OverflowError\<close> outside their ranges.
  A negative offset counts from the end, and the window from the start to the start
  plus the length is cut to the frame.
\<close>

definition df_slice :: "int \<Rightarrow> int \<Rightarrow> 'a list \<Rightarrow> error + 'a list" where
  "df_slice offset len xs =
     (let n = int (length xs);
          l = (if len < 0 then n - offset + len else len)
      in if offset < - (2 ^ 63) \<or> 2 ^ 63 \<le> offset \<or> l < 0 \<or> 2 ^ 64 \<le> l
         then Inl OverflowError
         else
           (let start = (if offset < 0 then offset + n else offset);
                stop = start + l;
                first_row = max 0 (min n start);
                end_row = max 0 (min n stop)
            in Inr (take (nat (end_row - first_row)) (drop (nat first_row) xs))))"

section \<open>Rendering numbers and dates\<close>

text \<open>The character of a digit; it is applied to numbers below ten only.\<close>

definition digit_char :: "nat \<Rightarrow> char" where
  "digit_char n = ''0123456789'' ! n"

fun dec_digits :: "nat \<Rightarrow> string" where
  "dec_digits n =
     (if n < 10 then [digit_char n] else dec_digits (n div 10) @ [digit_char (n mod 10)])"

declare dec_digits.simps [simp del]

text \<open>\<^verbatim>\<open>f"{i}"\<close> and \<^verbatim>\<open>f"{i:0wd}"\<close> (the sign counts in the width).\<close>

definition py_str :: "int \<Rightarrow> string" where
  "py_str i = (if i < 0 then CHR ''-'' # dec_digits (nat (- i)) else dec_digits (nat i))"

definition fmt_0d :: "nat \<Rightarrow> int \<Rightarrow> string" where
  "fmt_0d w i =
     (let ds = dec_digits (nat \<bar>i\<bar>)
      in if i < 0 then CHR ''-'' # replicate (w - 1 - length ds) CHR ''0'' @ ds
         else replicate (w - length ds) CHR ''0'' @ ds)"

text \<open>
  \<^verbatim>\<open>strftime('%Y-%m-%d')\<close>. CPython hands \<^verbatim>\<open>%Y\<close> to the C library, which on Linux
  prints the year without padding; month and day are on two digits.
\<close>

definition strftime_ymd :: "date \<Rightarrow> string" where
  "strftime_ymd d =
     py_str (dt_year d) @ ''-'' @ fmt_0d 2 (dt_month d) @ ''-'' @ fmt_0d 2 (dt_day d)"

section \<open>Key performance indicators\<close>

text \<open>The values of the dictionaries that are returned as JSON.\<close>

datatype pyval =
  PInt int | PFloat real | PStr string | PList "pyval list" | PDict "(string \<times> pyval) list"

text \<open>\<^verbatim>\<open>float(x)\<close> raises \<^verbatim>\<open>TypeError\<close> on \<^verbatim>\<open>None\<close>.\<close>

definition py_float :: "real option \<Rightarrow> error + real" where
  "py_float v = (case v of None \<Rightarrow> Inl TypeError | Some x \<Rightarrow> Inr x)"

text \<open>
  A row of \<^verbatim>\<open>group_by(col).agg([sum Revenue, sum Units_Sold, count])\<close>; \<open>key\<close> is the
  value of the grouping column (\<^verbatim>\<open>Region\<close>, \<^verbatim>\<open>Sales_Channel\<close>, \<^verbatim>\<open>Date\<close> or
  \<^verbatim>\<open>Price_Per_Unit\<close>). The sum of \<^verbatim>\<open>Units_Sold\<close> is a sum of \<^verbatim>\<open>Int64\<close>.
\<close>

record 'k group_row =
  key :: 'k
  total_revenue :: real
  total_units :: int
  transaction_count :: int

definition agg_row :: "'k \<times> sale list \<Rightarrow> 'k group_row" where
  "agg_row g =
     \<lparr>key = fst g,
      total_revenue = sum_list (map Revenue (snd g)),
      total_units = int64 (sum_list (map Units_Sold (snd g))),
      transaction_count = int (length (snd g))\<rparr>"

definition by_revenue_desc :: "'k group_row \<Rightarrow> 'k group_row \<Rightarrow> bool" where
  "by_revenue_desc = direction True (\<lambda>a b. total_revenue a \<le> total_revenue b)"

text \<open>
  \<^verbatim>\<open>group_by(col).agg(sum Revenue).sort('total_revenue', descending=True).limit(1)\<close>,
  and the two keys it adds to \<^verbatim>\<open>metrics\<close> when it has a row.
\<close>

definition top_performer :: "(sale \<Rightarrow> string) \<Rightarrow> sale list \<Rightarrow> string group_row list" where
  "top_performer k xs = take 1 (df_sort by_revenue_desc (map agg_row (group_by k xs)))"

definition top_entries :: "string \<Rightarrow> string \<Rightarrow> string group_row list \<Rightarrow> (string \<rightharpoonup> pyval)" where
  "top_entries name name_revenue best =
     (case best of
        [] \<Rightarrow> Map.empty
      | t # _ \<Rightarrow> [name \<mapsto> PStr (key t), name_revenue \<mapsto> PFloat (total_revenue t)])"

definition get_kpi_metrics :: "processor \<Rightarrow> error + (string \<rightharpoonup> pyval)" where
  "get_kpi_metrics p =
     (case df p of
        None \<Rightarrow> Inr Map.empty
      | Some f \<Rightarrow>
          if \<not> has_columns [''Revenue'', ''Units_Sold'', ''Price_Per_Unit''] f
          then Inl ColumnNotFoundError
          else
            (case py_float (series_mean (map Price_Per_Unit (rows f))) of
               Inl e \<Rightarrow> Inl e
             | Inr avg_price \<Rightarrow>
            (case py_float (series_mean (map (\<lambda>r. real_of_int (Units_Sold r)) (rows f))) of
               Inl e \<Rightarrow> Inl e
             | Inr avg_units \<Rightarrow>
            (case py_float (series_mean (map Revenue (rows f))) of
               Inl e \<Rightarrow> Inl e
             | Inr avg_revenue \<Rightarrow>
                 (let metrics =
                        [''total_revenue'' \<mapsto> PFloat (sum_list (map Revenue (rows f))),
                         ''total_units'' \<mapsto> PInt (int64 (sum_list (map Units_Sold (rows f)))),
                         ''avg_price'' \<mapsto> PFloat avg_price,
                         ''total_transactions'' \<mapsto> PInt (int (length (rows f))),
                         ''avg_units_per_sale'' \<mapsto> PFloat avg_units,
                         ''revenue_per_transaction'' \<mapsto> PFloat avg_revenue]
                  in if \<not> has_columns [''Region'', ''Sales_Channel''] f
                     then Inl ColumnNotFoundError
                     else Inr (metrics
                       ++ top_entries ''top_region'' ''top_region_revenue''
                            (top_performer Region (rows f))
                       ++ top_entries ''top_channel'' ''top_channel_revenue''
                            (top_performer Sales_Channel (rows f))))))))"

section \<open>Breakdowns and trends\<close>

definition revenue_by ::
  "string \<Rightarrow> (sale \<Rightarrow> string) \<Rightarrow> processor \<Rightarrow> error + string group_row list" where
  "revenue_by c k p =
     (case df p of
        None \<Rightarrow> Inr []
      | Some f \<Rightarrow>
          if \<not> has_columns [c, ''Revenue'', ''Units_Sold''] f then Inl ColumnNotFoundError
          else Inr (df_sort by_revenue_desc (map agg_row (group_by k (rows f)))))"

definition get_revenue_by_region :: "processor \<Rightarrow> error + string group_row list" where
  "get_revenue_by_region = revenue_by ''Region'' Region"

definition get_revenue_by_channel :: "processor \<Rightarrow> error + string group_row list" where
  "get_revenue_by_channel = revenue_by ''Sales_Channel'' Sales_Channel"

definition by_key_asc :: "('k::linorder) group_row \<Rightarrow> 'k group_row \<Rightarrow> bool" where
  "by_key_asc = direction False (\<lambda>a b. key a \<le> key b)"

record trend =
  revenue :: real
  units :: int
  transactions :: int

record daily_trend = trend +
  date :: string

definition daily_entry :: "date group_row \<Rightarrow> daily_trend" where
  "daily_entry row =
     \<lparr>revenue = total_revenue row, units = total_units row,
      transactions = transaction_count row, date = strftime_ymd (key row)\<rparr>"

definition get_daily_revenue_trend :: "processor \<Rightarrow> error + daily_trend list" where
  "get_daily_revenue_trend p =
     (case df p of
        None \<Rightarrow> Inr []
      | Some f \<Rightarrow>
          if \<not> has_columns [''Date'', ''Revenue'', ''Units_Sold''] f
          then Inl ColumnNotFoundError
          else Inr (map daily_entry
                 (df_sort by_key_asc (map agg_row (group_by Date (rows f))))))"

definition get_price_distribution :: "processor \<Rightarrow> error + real group_row list" where
  "get_price_distribution p =
     (case df p of
        None \<Rightarrow> Inr []
      | Some f \<Rightarrow>
          if \<not> has_columns [''Price_Per_Unit'', ''Revenue'', ''Units_Sold''] f
          then Inl ColumnNotFoundError
          else Inr (df_sort by_key_asc (map agg_row (group_by Price_Per_Unit (rows f)))))"

text \<open>
  \<^verbatim>\<open>get_monthly_trends\<close>: a row of \<^verbatim>\<open>result\<close> is the aggregate of a (year, month)
  group with the mean price of the group, which polars gives as null on no rows.
\<close>

record monthly_trend = trend +
  year_month :: string
  avg_price :: real

definition year_month_of :: "sale \<Rightarrow> int \<times> int" where
  "year_month_of r = (dt_year (Date r), dt_month (Date r))"

definition monthly_agg :: "(int \<times> int) \<times> sale list \<Rightarrow> (int \<times> int) group_row \<times> real option" where
  "monthly_agg g = (agg_row g, series_mean (map Price_Per_Unit (snd g)))"

definition monthly_result :: "sale list \<Rightarrow> ((int \<times> int) group_row \<times> real option) list" where
  "monthly_result xs =
     df_sort (direction False (\<lambda>a b. key (fst a) \<le> key (fst b)))
       (map monthly_agg (group_by year_month_of xs))"

definition render_year_month :: "int \<times> int \<Rightarrow> string" where
  "render_year_month ym = py_str (fst ym) @ ''-'' @ fmt_0d 2 (snd ym)"

fun monthly_entries ::
  "((int \<times> int) group_row \<times> real option) list \<Rightarrow> error + monthly_trend list" where
  "monthly_entries [] = Inr []"
| "monthly_entries (row # rest) =
     (case py_float (snd row) of
        Inl e \<Rightarrow> Inl e
      | Inr ap \<Rightarrow>
          (case monthly_entries rest of
             Inl e \<Rightarrow> Inl e
           | Inr trends \<Rightarrow>
               Inr (\<lparr>revenue = total_revenue (fst row), units = total_units (fst row),
                     transactions = transaction_count (fst row),
                     year_month = render_year_month (key (fst row)),
                     avg_price = ap\<rparr> # trends)))"

definition get_monthly_trends :: "processor \<Rightarrow> error + monthly_trend list" where
  "get_monthly_trends p =
     (case df p of
        None \<Rightarrow> Inr []
      | Some f \<Rightarrow>
          if \<not> has_columns [''Date'', ''Revenue'', ''Units_Sold'', ''Price_Per_Unit''] f
          then Inl ColumnNotFoundError
          else monthly_entries (monthly_result (rows f)))"

section \<open>Filter options\<close>

definition get_filter_options :: "processor \<Rightarrow> error + (string \<rightharpoonup> pyval)" where
  "get_filter_options p =
     (case df p of
        None \<Rightarrow> Inr Map.empty
      | Some f \<Rightarrow>
          if \<not> has_columns [''Region'', ''Sales_Channel'', ''Price_Per_Unit''] f
          then Inl ColumnNotFoundError
          else
            (case py_float (series_min (map Price_Per_Unit (rows f))) of
               Inl e \<Rightarrow> Inl e
             | Inr lo \<Rightarrow>
            (case py_float (series_max (map Price_Per_Unit (rows f))) of
               Inl e \<Rightarrow> Inl e
             | Inr hi \<Rightarrow>
                 if \<not> has_columns [''Date''] f then Inl ColumnNotFoundError
                 else
                   (case series_min (map Date (rows f)) of
                      None \<Rightarrow> Inl AttributeError
                    | Some earliest \<Rightarrow>
                   (case series_max (map Date (rows f)) of
                      None \<Rightarrow> Inl AttributeError
                    | Some latest \<Rightarrow>
                        Inr [''regions'' \<mapsto> PList (map PStr (remdups (map Region (rows f)))),
                             ''channels'' \<mapsto>
                               PList (map PStr (remdups (map Sales_Channel (rows f)))),
                             ''price_range'' \<mapsto>
                               PDict [(''min'', PFloat lo), (''max'', PFloat hi)],
                             ''date_range'' \<mapsto>
                               PDict [(''start'', PStr (strftime_ymd earliest)),
                                      (''end'', PStr (strftime_ymd latest))]])))))"

section \<open>The paginated table\<close>

text \<open>
  The order of the cells of a column. A column holds cells of one type, so the last
  equation of \<open>cell_le\<close> is for totality only.
\<close>

fun cell_rank :: "cell \<Rightarrow> nat" where
  "cell_rank (Int_Cell _) = 0"
| "cell_rank (Float_Cell _) = 1"
| "cell_rank (Str_Cell _) = 2"
| "cell_rank (Date_Cell _) = 3"

fun cell_le :: "cell \<Rightarrow> cell \<Rightarrow> bool" where
  "cell_le (Int_Cell a) (Int_Cell b) \<longleftrightarrow> a \<le> b"
| "cell_le (Float_Cell a) (Float_Cell b) \<longleftrightarrow> a \<le> b"
| "cell_le (Str_Cell a) (Str_Cell b) \<longleftrightarrow> a \<le> b"
| "cell_le (Date_Cell a) (Date_Cell b) \<longleftrightarrow> a \<le> b"
| "cell_le a b \<longleftrightarrow> cell_rank a \<le> cell_rank b"

text \<open>The cell of a row in the column of a name, and the order of the rows by a column.\<close>

definition cell_of :: "string \<Rightarrow> sale \<Rightarrow> cell" where
  "cell_of c r =
     (if c = ''Sale_ID'' then Int_Cell (Sale_ID r)
      else if c = ''Date'' then Date_Cell (Date r)
      else if c = ''Units_Sold'' then Int_Cell (Units_Sold r)
      else if c = ''Price_Per_Unit'' then Float_Cell (Price_Per_Unit r)
      else if c = ''Revenue'' then Float_Cell (Revenue r)
      else if c = ''Region'' then Str_Cell (Region r)
      else if c = ''Sales_Channel'' then Str_Cell (Sales_Channel r)
      else extra r c)"

definition col_le :: "string \<Rightarrow> sale \<Rightarrow> sale \<Rightarrow> bool" where
  "col_le c a b \<longleftrightarrow> cell_le (cell_of c a) (cell_of c b)"

text \<open>\<^verbatim>\<open>record = dict(row); record['Date'] = record['Date'].strftime('%Y-%m-%d')\<close>\<close>

definition table_record :: "sale \<Rightarrow> string sale_row" where
  "table_record r =
     \<lparr>Sale_ID = Sale_ID r, Date = strftime_ymd (Date r), Units_Sold = Units_Sold r,
      Price_Per_Unit = Price_Per_Unit r, Revenue = Revenue r, Region = Region r,
      Sales_Channel = Sales_Channel r, extra = extra r\<rparr>"

text \<open>The dictionary that is returned; \<open>current_page = None\<close> is a dictionary without that key.\<close>

record table_page =
  data :: "string sale_row list"
  total :: int
  pages :: int
  current_page :: "int option"

definition get_table_data ::
  "processor \<Rightarrow> int \<Rightarrow> int \<Rightarrow> string \<Rightarrow> string \<Rightarrow> error + table_page" where
  "get_table_data p page per_page sort_by sort_order =
     (case df p of
        None \<Rightarrow> Inr \<lparr>data = [], total = 0, pages = 0, current_page = None\<rparr>
      | Some f \<Rightarrow>
          (let ascending = (sort_order = ''asc'')
           in if \<not> has_columns [sort_by] f then Inl ColumnNotFoundError
              else
                (let sorted_df = df_sort (direction (\<not> ascending) (col_le sort_by)) (rows f);
                     total_records = int (length sorted_df)
                 in if per_page = 0 then Inl ZeroDivisionError
                    else
                      (let total_pages = (total_records + per_page - 1) div per_page;
                           offset = (page - 1) * per_page
                       in case df_slice offset per_page sorted_df of
                            Inl e \<Rightarrow> Inl e
                          | Inr page_data \<Rightarrow>
                              if page_data \<noteq> [] \<and> \<not> has_columns [''Date''] f
                              then Inl KeyError
                              else Inr \<lparr>data = map table_record page_data,
                                        total = total_records,
                                        pages = total_pages,
                                        current_page = Some page\<rparr>))))"

text \<open>
  A call as a step on the state: the method reads \<^verbatim>\<open>self.df\<close> and assigns no attribute,
  so the processor after the call is the one before.
\<close>

definition get_table_data_call ::
  "processor \<Rightarrow> int \<Rightarrow> int \<Rightarrow> string \<Rightarrow> string \<Rightarrow> (error + table_page) \<times> processor" where
  "get_table_data_call p page per_page sort_by sort_order =
     (get_table_data p page per_page sort_by sort_order, p)"

section \<open>The request layer of \<^verbatim>\<open>backend/app.py\<close>\<close>

text \<open>
  The files: a path holds a CSV source or nothing. Reading a source either raises
  (\<open>Unreadable\<close>: not a CSV, or a cell that is not of the type asked for) or gives a
  frame with the columns of its header.
\<close>

datatype csv = Unreadable | Table "string list" "sale list"

definition read_csv :: "(string \<rightharpoonup> csv) \<Rightarrow> string \<Rightarrow> error + frame" where
  "read_csv fs path =
     (case fs path of
        None \<Rightarrow> Inl FileNotFoundError
      | Some Unreadable \<Rightarrow> Inl ComputeError
      | Some (Table cs rs) \<Rightarrow> Inr \<lparr>columns = cs, rows = rs\<rparr>)"

text \<open>\<^verbatim>\<open>load_data\<close>: the \<^verbatim>\<open>except\<close> branch prints the error and sets \<^verbatim>\<open>self.df = None\<close>.\<close>

definition load_data :: "(string \<rightharpoonup> csv) \<Rightarrow> processor \<Rightarrow> processor" where
  "load_data fs p =
     (case read_csv fs (csv_path p) of
        Inr f \<Rightarrow> p\<lparr>df := Some f\<rparr>
      | Inl e \<Rightarrow> p\<lparr>df := None\<rparr>)"

text \<open>\<^verbatim>\<open>DataProcessor(csv_path)\<close>\<close>

definition DataProcessor :: "(string \<rightharpoonup> csv) \<Rightarrow> string \<Rightarrow> processor" where
  "DataProcessor fs path = load_data fs \<lparr>csv_path = path, df = None\<rparr>"

text \<open>The state of the server: the files and the module's global \<^verbatim>\<open>processor\<close>.\<close>

record server =
  files :: "string \<rightharpoonup> csv"
  processor :: processor

text \<open>A response: the HTTP status and what \<^verbatim>\<open>jsonify\<close> is given.\<close>

datatype 'a reply = Reply (status: nat) (payload: 'a)

text \<open>
  An argument of the query string that the handler converts with \<^verbatim>\<open>int\<close> or
  \<^verbatim>\<open>float\<close>: its value, or a string that the conversion rejects.
\<close>

datatype 'a parsed = Parsed 'a | Unparsable

record request_args =
  arg_page :: "int parsed option"
  arg_per_page :: "int parsed option"
  arg_sort_by :: "string option"
  arg_sort_order :: "string option"
  arg_start_date :: "string option"
  arg_end_date :: "string option"
  arg_regions :: "string option"
  arg_channels :: "string option"
  arg_min_price :: "real parsed option"
  arg_max_price :: "real parsed option"

text \<open>\<^verbatim>\<open>int(request.args.get(name, default))\<close>\<close>

definition int_arg :: "int \<Rightarrow> int parsed option \<Rightarrow> error + int" where
  "int_arg dflt a =
     (case a of
        None \<Rightarrow> Inr dflt
      | Some Unparsable \<Rightarrow> Inl ValueError
      | Some (Parsed n) \<Rightarrow> Inr n)"

text \<open>\<^verbatim>\<open>if request.args.get(name): filters[name] = float(request.args.get(name))\<close>\<close>

definition float_arg :: "real parsed option \<Rightarrow> error + real option" where
  "float_arg a =
     (case a of
        None \<Rightarrow> Inr None
      | Some Unparsable \<Rightarrow> Inl ValueError
      | Some (Parsed x) \<Rightarrow> Inr (Some x))"

fun split_on :: "char \<Rightarrow> string \<Rightarrow> string list" where
  "split_on c [] = [[]]"
| "split_on c (x # xs) =
     (if x = c then [] # split_on c xs
      else (case split_on c xs of [] \<Rightarrow> [[x]] | w # ws \<Rightarrow> (x # w) # ws))"

text \<open>\<^verbatim>\<open>if request.args.get(name): filters[name] = request.args.get(name).split(',')\<close>\<close>

definition list_arg :: "string option \<Rightarrow> string list option" where
  "list_arg a =
     (case a of
        None \<Rightarrow> None
      | Some s \<Rightarrow> if s = [] then None else Some (split_on CHR '','' s))"

text \<open>\<^verbatim>\<open>if request.args.get(name): filters[name] = request.args.get(name)\<close>\<close>

definition date_arg :: "string option \<Rightarrow> date_value option" where
  "date_arg a =
     (case a of
        None \<Rightarrow> None
      | Some s \<Rightarrow> if s = [] then None else Some (Date_String s))"

definition get_data :: "server \<Rightarrow> request_args \<Rightarrow> (error + table_page) reply" where
  "get_data srv args =
     (case int_arg 1 (arg_page args) of
        Inl e \<Rightarrow> Reply 500 (Inl e)
      | Inr page \<Rightarrow>
     (case int_arg 50 (arg_per_page args) of
        Inl e \<Rightarrow> Reply 500 (Inl e)
      | Inr per_page \<Rightarrow>
     (case float_arg (arg_min_price args) of
        Inl e \<Rightarrow> Reply 500 (Inl e)
      | Inr lo \<Rightarrow>
     (case float_arg (arg_max_price args) of
        Inl e \<Rightarrow> Reply 500 (Inl e)
      | Inr hi \<Rightarrow>
          (let sort_by = (case arg_sort_by args of None \<Rightarrow> ''Date'' | Some s \<Rightarrow> s);
               sort_order = (case arg_sort_order args of None \<Rightarrow> ''desc'' | Some s \<Rightarrow> s);
               fs = \<lparr>start_date = date_arg (arg_start_date args),
                     end_date = date_arg (arg_end_date args),
                     regions = list_arg (arg_regions args),
                     channels = list_arg (arg_channels args),
                     min_price = lo, max_price = hi\<rparr>;
               result =
                 (if fs \<noteq> no_filters then
                    (case filter_data (processor srv) fs of
                       Inl e \<Rightarrow> Inl e
                     | Inr None \<Rightarrow>
                         Inr \<lparr>data = [], total = 0, pages = 0, current_page = Some page\<rparr>
                     | Inr (Some filtered_df) \<Rightarrow>
                         get_table_data
                           \<lparr>csv_path = csv_path (processor srv), df = Some filtered_df\<rparr>
                           page per_page sort_by sort_order)
                  else get_table_data (processor srv) page per_page sort_by sort_order)
           in case result of
                Inl e \<Rightarrow> Reply 500 (Inl e)
              | Inr d \<Rightarrow> Reply 200 (Inr d))))))"

text \<open>\<^verbatim>\<open>get_kpi\<close>: the route \<^verbatim>\<open>/api/kpi\<close>.\<close>

definition get_kpi :: "server \<Rightarrow> (error + (string \<rightharpoonup> pyval)) reply" where
  "get_kpi srv =
     (case get_kpi_metrics (processor srv) of
        Inl e \<Rightarrow> Reply 500 (Inl e)
      | Inr metrics \<Rightarrow> Reply 200 (Inr metrics))"

subsection \<open>Upload\<close>

definition UPLOAD_FOLDER :: string where
  "UPLOAD_FOLDER = ''data''"

definition ALLOWED_EXTENSIONS :: "string list" where
  "ALLOWED_EXTENSIONS = [''csv'']"

definition path_join :: "string \<Rightarrow> string \<Rightarrow> string" where
  "path_join a b = a @ ''/'' @ b"

definition DATA_FILE :: string where
  "DATA_FILE =
     path_join ''..'' (path_join UPLOAD_FOLDER ''AI_Note_Taking_Pin_Sales_Data__2025_.csv'')"

definition lower_char :: "char \<Rightarrow> char" where
  "lower_char c =
     (let n = (of_char c :: nat) in if 65 \<le> n \<and> n \<le> 90 then char_of (n + 32) else c)"

text \<open>\<^verbatim>\<open>'.' in filename and filename.rsplit('.', 1)[1].lower() in ALLOWED_EXTENSIONS\<close>\<close>

definition allowed_file :: "string \<Rightarrow> bool" where
  "allowed_file filename \<longleftrightarrow>
     CHR ''.'' \<in> set filename \<and>
     map lower_char (rev (takeWhile (\<lambda>c. c \<noteq> CHR ''.'') (rev filename)))
       \<in> set ALLOWED_EXTENSIONS"

record upload =
  filename :: string
  content :: csv

datatype upload_error =
  No_file_provided | No_file_selected | Invalid_file_type | Invalid_CSV_file_format
  | CSV_must_contain_columns | Internal_error error

record upload_ok =
  records :: int
  backup_file :: string

text \<open>
  \<^verbatim>\<open>upload_file\<close>. \<open>secure_filename\<close> is werkzeug's function and \<open>now\<close> is
  \<^verbatim>\<open>datetime.now().strftime("%Y%m%d_%H%M%S")\<close>; \<open>req\<close> is \<^verbatim>\<open>request.files.get('file')\<close>.
  Saving, removing, copying and moving a file are taken to succeed. The inner
  \<^verbatim>\<open>except\<close> has no branch here, since nothing in its \<^verbatim>\<open>try\<close> raises.
\<close>

definition upload_file ::
  "(string \<Rightarrow> string) \<Rightarrow> string \<Rightarrow> server \<Rightarrow> upload option
     \<Rightarrow> (upload_error + upload_ok) reply \<times> server" where
  "upload_file secure_filename now srv req =
     (case req of
        None \<Rightarrow> (Reply 400 (Inl No_file_provided), srv)
      | Some file \<Rightarrow>
          if filename file = [] then (Reply 400 (Inl No_file_selected), srv)
          else if \<not> allowed_file (filename file) then (Reply 400 (Inl Invalid_file_type), srv)
          else
            (let temp_path =
                   path_join UPLOAD_FOLDER (''temp_'' @ secure_filename (filename file));
                 saved = (files srv)(temp_path \<mapsto> content file);
                 test_processor = DataProcessor saved temp_path
             in case df test_processor of
                  None \<Rightarrow>
                    (Reply 400 (Inl Invalid_CSV_file_format),
                     srv\<lparr>files := saved(temp_path := None)\<rparr>)
                | Some test_df \<Rightarrow>
                    if \<not> set required_columns \<subseteq> set (columns test_df)
                    then (Reply 400 (Inl CSV_must_contain_columns),
                          srv\<lparr>files := saved(temp_path := None)\<rparr>)
                    else
                      (let backup_path = path_join UPLOAD_FOLDER (''backup_'' @ now @ ''.csv'');
                           backed_up =
                             (case saved DATA_FILE of
                                None \<Rightarrow> saved
                              | Some old \<Rightarrow> saved(backup_path \<mapsto> old));
                           moved = (backed_up(DATA_FILE := backed_up temp_path))
                                     (temp_path := None);
                           reloaded = DataProcessor moved DATA_FILE;
                           srv' = \<lparr>files = moved, processor = reloaded\<rparr>
                       in case df reloaded of
                            None \<Rightarrow> (Reply 500 (Inl (Internal_error TypeError)), srv')
                          | Some new_df \<Rightarrow>
                              (Reply 200
                                 (Inr \<lparr>records = int (length (rows new_df)),
                                       backup_file = ''backup_'' @ now @ ''.csv''\<rparr>),
                               srv'))))"

section \<open>Terms of the specification\<close>

text \<open>
  The dates a \<^verbatim>\<open>datetime.date\<close> can hold, by their ranges (the lengths of the months
  play no part below), and the decimal digits of a month or day and of a year, written
  out by the number of digits.
\<close>

definition calendar_date :: "date \<Rightarrow> bool" where
  "calendar_date d \<longleftrightarrow>
     1 \<le> fst d \<and> fst d \<le> 9999 \<and> 1 \<le> fst (snd d) \<and> fst (snd d) \<le> 12
       \<and> 1 \<le> snd (snd d) \<and> snd (snd d) \<le> 31"

definition two_digits :: "int \<Rightarrow> string" where
  "two_digits n = [''0123456789'' ! nat (n div 10), ''0123456789'' ! nat (n mod 10)]"

definition year_digits :: "int \<Rightarrow> string" where
  "year_digits y =
     (if y < 10 then [''0123456789'' ! nat y]
      else if y < 100 then
        [''0123456789'' ! nat (y div 10), ''0123456789'' ! nat (y mod 10)]
      else if y < 1000 then
        [''0123456789'' ! nat (y div 100), ''0123456789'' ! nat (y div 10 mod 10),
         ''0123456789'' ! nat (y mod 10)]
      else
        [''0123456789'' ! nat (y div 1000), ''0123456789'' ! nat (y div 100 mod 10),
         ''0123456789'' ! nat (y div 10 mod 10), ''0123456789'' ! nat (y mod 10)])"

definition iso_date :: "date \<Rightarrow> string" where
  "iso_date d =
     year_digits (fst d) @ ''-'' @ two_digits (fst (snd d)) @ ''-'' @ two_digits (snd (snd d))"

text \<open>A 64-bit sum: in the range of \<^verbatim>\<open>Int64\<close> and equal to the exact sum modulo \<open>2^64\<close>.\<close>

definition is_int64_sum :: "int \<Rightarrow> int list \<Rightarrow> bool" where
  "is_int64_sum v xs \<longleftrightarrow>
     - (2 ^ 63) \<le> v \<and> v < 2 ^ 63 \<and> (v - sum_list xs) mod 2 ^ 64 = 0"

section \<open>Example data\<close>

definition example_sale :: "int \<Rightarrow> date \<Rightarrow> int \<Rightarrow> real \<Rightarrow> string \<Rightarrow> string \<Rightarrow> sale" where
  "example_sale i d u v reg ch =
     \<lparr>Sale_ID = i, Date = d, Units_Sold = u, Price_Per_Unit = 10, Revenue = v,
      Region = reg, Sales_Channel = ch, extra = (\<lambda>name. Str_Cell [])\<rparr>"

definition sale_jan_a :: sale where
  "sale_jan_a = example_sale 1 (2025, 1, 1) 1 10 ''East'' ''Online''"

definition sale_jan_b :: sale where
  "sale_jan_b = example_sale 2 (2025, 1, 1) 2 20 ''West'' ''Retail''"

definition sale_feb :: sale where
  "sale_feb = example_sale 3 (2025, 2, 1) 3 30 ''East'' ''Online''"

definition example_frame :: frame where
  "example_frame = \<lparr>columns = required_columns, rows = [sale_jan_a, sale_jan_b, sale_feb]\<rparr>"

definition example_processor :: processor where
  "example_processor = \<lparr>csv_path = ''sales.csv'', df = Some example_frame\<rparr>"

definition east_from_february :: filters where
  "east_from_february =
     no_filters\<lparr>start_date := Some (Date_Object (2025, 2, 1)), regions := Some [''East'']\<rparr>"

definition only_east :: filters where
  "only_east = no_filters\<lparr>regions := Some [''East'']\<rparr>"

definition no_regions :: filters where
  "no_regions = no_filters\<lparr>regions := Some []\<rparr>"

definition sale_30 :: sale where
  "sale_30 = example_sale 1 (2025, 3, 1) 3 30 ''East'' ''Online''"

definition sale_10 :: sale where
  "sale_10 = example_sale 2 (2025, 3, 2) 1 10 ''West'' ''Retail''"

definition sale_20 :: sale where
  "sale_20 = example_sale 3 (2025, 3, 3) 2 20 ''East'' ''Retail''"

definition table_processor :: processor where
  "table_processor =
     \<lparr>csv_path = ''sales.csv'',
      df = Some \<lparr>columns = required_columns, rows = [sale_30, sale_10, sale_20]\<rparr>\<rparr>"

text \<open>Two sales of \<open>2^62\<close> units each in one region, and a sale of the year 999.\<close>

definition bulk_processor :: processor where
  "bulk_processor =
     \<lparr>csv_path = ''bulk.csv'',
      df = Some \<lparr>columns = required_columns,
                 rows = [example_sale 1 (2025, 1, 1) 4611686018427387904 10 ''East'' ''Online'',
                         example_sale 2 (2025, 1, 2) 4611686018427387904 10 ''East''
                           ''Online'']\<rparr>\<rparr>"

definition old_processor :: processor where
  "old_processor =
     \<lparr>csv_path = ''old.csv'',
      df = Some \<lparr>columns = required_columns,
                 rows = [example_sale 1 (999, 1, 1) 1 10 ''East'' ''Online'']\<rparr>\<rparr>"

text \<open>A frame with a column beyond the seven.\<close>

definition notes_processor :: processor where
  "notes_processor =
     \<lparr>csv_path = ''notes.csv'',
      df = Some \<lparr>columns = required_columns @ [''Notes''],
                 rows = [sale_jan_a, sale_jan_b, sale_feb]\<rparr>\<rparr>"

definition empty_processor :: processor where
  "empty_processor =
     \<lparr>csv_path = ''empty.csv'', df = Some \<lparr>columns = required_columns, rows = []\<rparr>\<rparr>"


definition no_args :: request_args where
  "no_args =
     \<lparr>arg_page = None, arg_per_page = None, arg_sort_by = None, arg_sort_order = None,
      arg_start_date = None, arg_end_date = None, arg_regions = None, arg_channels = None,
      arg_min_price = None, arg_max_price = None\<rparr>"

text \<open>A server whose data file holds the example frame, and an upload without \<^verbatim>\<open>Region\<close>.\<close>

definition stored_server :: server where
  "stored_server =
     \<lparr>files = [DATA_FILE \<mapsto> Table required_columns [sale_jan_a, sale_jan_b, sale_feb]],
      processor = \<lparr>csv_path = DATA_FILE, df = Some example_frame\<rparr>\<rparr>"

definition upload_without_region :: upload where
  "upload_without_region =
     \<lparr>filename = ''new.csv'',
      content =
        Table [''Sale_ID'', ''Date'', ''Units_Sold'', ''Price_Per_Unit'', ''Revenue'',
               ''Sales_Channel''] [sale_30]\<rparr>"

definition no_dataset :: processor where
  "no_dataset = \<lparr>csv_path = ''missing.csv'', df = None\<rparr>"

section \<open>Properties of filtering\<close>

lemma has_columns_rows_update [simp]: "has_columns cs (f\<lparr>rows := xs\<rparr>) = has_columns cs f"
  by (simp add: has_columns_def)

lemma has_columns_sub:
  "has_columns required_columns f \<Longrightarrow> set cs \<subseteq> set required_columns \<Longrightarrow> has_columns cs f"
  by (auto simp: has_columns_def list_all_iff)

lemma has_columns_schema:
  assumes "has_columns required_columns f"
  shows "has_columns [''Date''] f" and "has_columns [''Region''] f"
    and "has_columns [''Sales_Channel''] f" and "has_columns [''Price_Per_Unit''] f"
    and "has_columns [''Revenue'', ''Units_Sold'', ''Price_Per_Unit''] f"
    and "has_columns [''Region'', ''Sales_Channel''] f"
    and "has_columns [''Region'', ''Revenue'', ''Units_Sold''] f"
    and "has_columns [''Sales_Channel'', ''Revenue'', ''Units_Sold''] f"
    and "has_columns [''Date'', ''Revenue'', ''Units_Sold'', ''Price_Per_Unit''] f"
  using assms by (simp_all add: has_columns_def required_columns_def)

lemma has_columns_one:
  "has_columns required_columns f \<Longrightarrow> c \<in> set required_columns \<Longrightarrow> has_columns [c] f"
  by (rule has_columns_sub) simp_all

lemma filter_step_compared:
  "has_columns [c] f \<Longrightarrow>
   filter_step (map_option Inr crit) c P (Inr f) =
     Inr (f\<lparr>rows := filter (\<lambda>r. case crit of None \<Rightarrow> True | Some v \<Rightarrow> P v r) (rows f)\<rparr>)"
  by (simp add: filter_step_def df_filter_def split: option.splits)

lemma date_criterion_compared:
  assumes "\<forall>s. v = Some (Date_String s) \<longrightarrow> s = []"
  shows "date_criterion v
           = map_option Inr (case v of Some (Date_Object d) \<Rightarrow> Some d | _ \<Rightarrow> None)"
  using assms by (simp add: date_criterion_def split: option.splits date_value.splits)

lemma date_case:
  "(case v of Some (Date_Object d) \<Rightarrow> P d | _ \<Rightarrow> True)
     \<longleftrightarrow> (\<forall>d. v = Some (Date_Object d) \<longrightarrow> P d)"
  by (cases v) (simp_all split: date_value.splits)

lemma list_case:
  "(case v of None \<Rightarrow> True | Some xs \<Rightarrow> xs = [] \<or> P xs)
     \<longleftrightarrow> (\<forall>xs. v = Some xs \<longrightarrow> xs \<noteq> [] \<longrightarrow> P xs)"
  by (cases v) auto

lemma value_case:
  "(case v of None \<Rightarrow> True | Some x \<Rightarrow> P x) \<longleftrightarrow> (\<forall>x. v = Some x \<longrightarrow> P x)"
  by (cases v) simp_all

lemma accepts_meaning:
  "accepts fs r \<longleftrightarrow>
     (\<forall>d. start_date fs = Some (Date_Object d) \<longrightarrow> d \<le> Date r) \<and>
     (\<forall>d. end_date fs = Some (Date_Object d) \<longrightarrow> Date r \<le> d) \<and>
     (\<forall>rs. regions fs = Some rs \<longrightarrow> rs \<noteq> [] \<longrightarrow> Region r \<in> set rs) \<and>
     (\<forall>cs. channels fs = Some cs \<longrightarrow> cs \<noteq> [] \<longrightarrow> Sales_Channel r \<in> set cs) \<and>
     (\<forall>m. min_price fs = Some m \<longrightarrow> m \<le> Price_Per_Unit r) \<and>
     (\<forall>m. max_price fs = Some m \<longrightarrow> Price_Per_Unit r \<le> m)"
  by (simp only: accepts_def date_case) (simp only: list_case value_case)


lemma date_steps:
  "(case (case v of Some (Date_Object d) \<Rightarrow> Some d | _ \<Rightarrow> None) of
      None \<Rightarrow> True | Some d \<Rightarrow> P d)
     \<longleftrightarrow> (\<forall>d. v = Some (Date_Object d) \<longrightarrow> P d)"
  by (cases v) (simp_all split: date_value.splits)

lemma list_steps:
  "(case truthy_list v of None \<Rightarrow> True | Some xs \<Rightarrow> P xs)
     \<longleftrightarrow> (\<forall>xs. v = Some xs \<longrightarrow> xs \<noteq> [] \<longrightarrow> P xs)"
  by (cases v) (simp_all add: truthy_list_def)

lemma filter_accepts_steps:
  "filter (accepts fs) xs =
     filter (\<lambda>r. case max_price fs of None \<Rightarrow> True | Some m \<Rightarrow> Price_Per_Unit r \<le> m)
    (filter (\<lambda>r. case min_price fs of None \<Rightarrow> True | Some m \<Rightarrow> m \<le> Price_Per_Unit r)
    (filter (\<lambda>r. case truthy_list (channels fs) of None \<Rightarrow> True
                 | Some cs \<Rightarrow> Sales_Channel r \<in> set cs)
    (filter (\<lambda>r. case truthy_list (regions fs) of None \<Rightarrow> True
                 | Some rs \<Rightarrow> Region r \<in> set rs)
    (filter (\<lambda>r. case (case end_date fs of Some (Date_Object d) \<Rightarrow> Some d | _ \<Rightarrow> None) of
                   None \<Rightarrow> True | Some d \<Rightarrow> Date r \<le> d)
    (filter (\<lambda>r. case (case start_date fs of Some (Date_Object d) \<Rightarrow> Some d | _ \<Rightarrow> None) of
                   None \<Rightarrow> True | Some d \<Rightarrow> d \<le> Date r) xs)))))"
  unfolding filter_filter
proof (rule filter_cong [OF refl])
  fix r
  show "accepts fs r =
    (((((( case (case start_date fs of Some (Date_Object d) \<Rightarrow> Some d | _ \<Rightarrow> None) of
                   None \<Rightarrow> True | Some d \<Rightarrow> d \<le> Date r) \<and>
       (case (case end_date fs of Some (Date_Object d) \<Rightarrow> Some d | _ \<Rightarrow> None) of
                   None \<Rightarrow> True | Some d \<Rightarrow> Date r \<le> d)) \<and>
       (case truthy_list (regions fs) of None \<Rightarrow> True | Some rs \<Rightarrow> Region r \<in> set rs)) \<and>
       (case truthy_list (channels fs) of None \<Rightarrow> True
                 | Some cs \<Rightarrow> Sales_Channel r \<in> set cs)) \<and>
       (case min_price fs of None \<Rightarrow> True | Some m \<Rightarrow> m \<le> Price_Per_Unit r)) \<and>
       (case max_price fs of None \<Rightarrow> True | Some m \<Rightarrow> Price_Per_Unit r \<le> m))"
    by (simp only: accepts_meaning date_steps list_steps conj_assoc) (simp only: value_case)
qed

lemma filter_data_rows:
  assumes "df p = Some f" and "has_columns required_columns f"
    and "\<forall>s. start_date fs = Some (Date_String s) \<longrightarrow> s = []"
    and "\<forall>s. end_date fs = Some (Date_String s) \<longrightarrow> s = []"
  shows "filter_data p fs = Inr (Some (f\<lparr>rows := filter (accepts fs) (rows f)\<rparr>))"
  using assms(1) has_columns_schema(1-4) [OF assms(2)]
  by (simp add: filter_data_def Let_def filter_step_compared filter_accepts_steps
      date_criterion_compared [OF assms(3)] date_criterion_compared [OF assms(4)])

lemma filter_data_date_string:
  assumes "df p = Some f" and "has_columns required_columns f"
    and "start_date fs = Some (Date_String s)" and "s \<noteq> []"
  shows "filter_data p fs = Inl InvalidOperationError"
  using assms(1,3,4) has_columns_schema(1) [OF assms(2)]
  by (simp add: filter_data_def Let_def filter_step_def date_criterion_def)

lemma accepts_no_filters: "accepts no_filters r"
  by (simp add: accepts_def no_filters_def)

text \<open>
  C1, as the code has it. For a frame with the columns of the schema and criteria whose
  date bounds, where given, are dates (not the strings of a request),
  \<^verbatim>\<open>filter_data\<close> returns the rows that pass every criterion in force, in their order:
  the result is a subsequence of the input, each of its records satisfies the date
  range, the region and channel membership and the price range that were given, every
  record of the input that satisfies them is in it, and with no criterion the result
  is the input. A region or channel list that is given but empty is not in force: the
  guard of the code skips it.
\<close>

theorem filter_data_subsequence:
  assumes "df p = Some f" and "has_columns required_columns f"
    and "\<forall>s. start_date fs = Some (Date_String s) \<longrightarrow> s = []"
    and "\<forall>s. end_date fs = Some (Date_String s) \<longrightarrow> s = []"
  shows "\<exists>g. filter_data p fs = Inr (Some g) \<and> columns g = columns f
           \<and> rows g = filter (accepts fs) (rows f)
           \<and> subseq (rows g) (rows f)
           \<and> (\<forall>r \<in> set (rows g).
                (\<forall>d. start_date fs = Some (Date_Object d) \<longrightarrow> d \<le> Date r) \<and>
                (\<forall>d. end_date fs = Some (Date_Object d) \<longrightarrow> Date r \<le> d) \<and>
                (\<forall>rs. regions fs = Some rs \<longrightarrow> rs \<noteq> [] \<longrightarrow> Region r \<in> set rs) \<and>
                (\<forall>cs. channels fs = Some cs \<longrightarrow> cs \<noteq> [] \<longrightarrow> Sales_Channel r \<in> set cs) \<and>
                (\<forall>m. min_price fs = Some m \<longrightarrow> m \<le> Price_Per_Unit r) \<and>
                (\<forall>m. max_price fs = Some m \<longrightarrow> Price_Per_Unit r \<le> m))
           \<and> (\<forall>r \<in> set (rows f).
                (\<forall>d. start_date fs = Some (Date_Object d) \<longrightarrow> d \<le> Date r) \<and>
                (\<forall>d. end_date fs = Some (Date_Object d) \<longrightarrow> Date r \<le> d) \<and>
                (\<forall>rs. regions fs = Some rs \<longrightarrow> rs \<noteq> [] \<longrightarrow> Region r \<in> set rs) \<and>
                (\<forall>cs. channels fs = Some cs \<longrightarrow> cs \<noteq> [] \<longrightarrow> Sales_Channel r \<in> set cs) \<and>
                (\<forall>m. min_price fs = Some m \<longrightarrow> m \<le> Price_Per_Unit r) \<and>
                (\<forall>m. max_price fs = Some m \<longrightarrow> Price_Per_Unit r \<le> m)
                \<longrightarrow> r \<in> set (rows g))
           \<and> (fs = no_filters \<longrightarrow> g = f)"
proof -
  let ?g = "f\<lparr>rows := filter (accepts fs) (rows f)\<rparr>"
  have run: "filter_data p fs = Inr (Some ?g)"
    using assms by (rule filter_data_rows)
  note meaning = accepts_meaning [of fs]
  have same: "fs = no_filters \<longrightarrow> ?g = f"
    by (simp add: accepts_no_filters)
  have sub: "subseq (rows ?g) (rows f)"
    by simp
  have each: "\<forall>r \<in> set (rows ?g).
                (\<forall>d. start_date fs = Some (Date_Object d) \<longrightarrow> d \<le> Date r) \<and>
                (\<forall>d. end_date fs = Some (Date_Object d) \<longrightarrow> Date r \<le> d) \<and>
                (\<forall>rs. regions fs = Some rs \<longrightarrow> rs \<noteq> [] \<longrightarrow> Region r \<in> set rs) \<and>
                (\<forall>cs. channels fs = Some cs \<longrightarrow> cs \<noteq> [] \<longrightarrow> Sales_Channel r \<in> set cs) \<and>
                (\<forall>m. min_price fs = Some m \<longrightarrow> m \<le> Price_Per_Unit r) \<and>
                (\<forall>m. max_price fs = Some m \<longrightarrow> Price_Per_Unit r \<le> m)"
  proof
    fix r assume "r \<in> set (rows ?g)"
    then have "accepts fs r" by simp
    then show "
                (\<forall>d. start_date fs = Some (Date_Object d) \<longrightarrow> d \<le> Date r) \<and>
                (\<forall>d. end_date fs = Some (Date_Object d) \<longrightarrow> Date r \<le> d) \<and>
                (\<forall>rs. regions fs = Some rs \<longrightarrow> rs \<noteq> [] \<longrightarrow> Region r \<in> set rs) \<and>
                (\<forall>cs. channels fs = Some cs \<longrightarrow> cs \<noteq> [] \<longrightarrow> Sales_Channel r \<in> set cs) \<and>
                (\<forall>m. min_price fs = Some m \<longrightarrow> m \<le> Price_Per_Unit r) \<and>
                (\<forall>m. max_price fs = Some m \<longrightarrow> Price_Per_Unit r \<le> m)"
      by (simp only: meaning)
  qed
  have complete: "\<forall>r \<in> set (rows f).
                (\<forall>d. start_date fs = Some (Date_Object d) \<longrightarrow> d \<le> Date r) \<and>
                (\<forall>d. end_date fs = Some (Date_Object d) \<longrightarrow> Date r \<le> d) \<and>
                (\<forall>rs. regions fs = Some rs \<longrightarrow> rs \<noteq> [] \<longrightarrow> Region r \<in> set rs) \<and>
                (\<forall>cs. channels fs = Some cs \<longrightarrow> cs \<noteq> [] \<longrightarrow> Sales_Channel r \<in> set cs) \<and>
                (\<forall>m. min_price fs = Some m \<longrightarrow> m \<le> Price_Per_Unit r) \<and>
                (\<forall>m. max_price fs = Some m \<longrightarrow> Price_Per_Unit r \<le> m)
                \<longrightarrow> r \<in> set (rows ?g)"
  proof (intro ballI impI)
    fix r assume "r \<in> set (rows f)" and "
                (\<forall>d. start_date fs = Some (Date_Object d) \<longrightarrow> d \<le> Date r) \<and>
                (\<forall>d. end_date fs = Some (Date_Object d) \<longrightarrow> Date r \<le> d) \<and>
                (\<forall>rs. regions fs = Some rs \<longrightarrow> rs \<noteq> [] \<longrightarrow> Region r \<in> set rs) \<and>
                (\<forall>cs. channels fs = Some cs \<longrightarrow> cs \<noteq> [] \<longrightarrow> Sales_Channel r \<in> set cs) \<and>
                (\<forall>m. min_price fs = Some m \<longrightarrow> m \<le> Price_Per_Unit r) \<and>
                (\<forall>m. max_price fs = Some m \<longrightarrow> Price_Per_Unit r \<le> m)"
    then have "r \<in> set (rows f)" and "accepts fs r" by (simp_all only: meaning)
    then show "r \<in> set (rows ?g)" by simp
  qed
  have cols: "columns ?g = columns f" and rws: "rows ?g = filter (accepts fs) (rows f)"
    by simp_all
  from run cols rws sub each complete same show ?thesis
    by (intro exI [of _ ?g] conjI)
qed

theorem filter_data_subsequence_witness:
  "df example_processor = Some example_frame \<and> has_columns required_columns example_frame
     \<and> start_date east_from_february = Some (Date_Object (2025, 2, 1))
     \<and> end_date east_from_february = None
     \<and> filter_data example_processor east_from_february
         = Inr (Some (example_frame\<lparr>rows := [sale_feb]\<rparr>))"
proof -
  have a: "df example_processor = Some example_frame"
    by (simp add: example_processor_def)
  have b: "has_columns required_columns example_frame"
    by (simp add: has_columns_def example_frame_def required_columns_def)
  have c: "\<forall>s. start_date east_from_february = Some (Date_String s) \<longrightarrow> s = []"
    by (simp add: east_from_february_def no_filters_def)
  have d: "\<forall>s. end_date east_from_february = Some (Date_String s) \<longrightarrow> s = []"
    by (simp add: east_from_february_def no_filters_def)
  obtain g where g: "filter_data example_processor east_from_february = Inr (Some g)"
      "columns g = columns example_frame"
      "rows g = filter (accepts east_from_february) (rows example_frame)"
    using filter_data_subsequence [OF a b c d] by blast
  have "rows g = [sale_feb]"
    by (simp add: g(3) example_frame_def accepts_def east_from_february_def no_filters_def
        sale_jan_a_def sale_jan_b_def sale_feb_def example_sale_def)
  with g(2) have "g = example_frame\<lparr>rows := [sale_feb]\<rparr>"
    by simp
  with a b g(1) show ?thesis by (simp add: east_from_february_def no_filters_def)
qed

text \<open>
  The claim as it is written fails on a region list that is supplied and empty: no
  record is a member of the empty list, and the code returns every record.
\<close>

theorem filter_data_empty_regions_counterexample:
  "regions no_regions = Some []
     \<and> filter_data example_processor no_regions = Inr (Some example_frame)
     \<and> sale_jan_a \<in> set (rows example_frame)
     \<and> Region sale_jan_a \<notin> set []"
proof -
  have a: "df example_processor = Some example_frame"
    by (simp add: example_processor_def)
  have b: "has_columns required_columns example_frame"
    by (simp add: has_columns_def example_frame_def required_columns_def)
  have "filter_data example_processor no_regions
          = Inr (Some (example_frame\<lparr>rows := filter (accepts no_regions) (rows example_frame)\<rparr>))"
    using a b by (rule filter_data_rows) (simp_all add: no_regions_def no_filters_def)
  moreover have "accepts no_regions r" for r
    by (simp add: accepts_def no_regions_def no_filters_def)
  ultimately show ?thesis
    by (simp add: no_regions_def example_frame_def)
qed

section \<open>Properties of the paginated table\<close>

lemma mset_insert_by: "mset (insert_by le x xs) = add_mset x (mset xs)"
  by (induction xs) auto

lemma mset_df_sort: "mset (df_sort le xs) = mset xs"
  by (induction xs) (auto simp: df_sort_def mset_insert_by)

lemma set_insert_by: "set (insert_by le x xs) = insert x (set xs)"
  by (induction xs) auto

lemma set_df_sort: "set (df_sort le xs) = set xs"
  using mset_df_sort [of le xs] by (metis set_mset_mset)

lemma length_df_sort: "length (df_sort le xs) = length xs"
  using mset_df_sort [of le xs] by (metis size_mset)

lemma sorted_insert_by:
  assumes tot: "\<And>a b. le a b \<or> le b a" and tr: "\<And>a b c. le a b \<Longrightarrow> le b c \<Longrightarrow> le a c"
  shows "sorted_wrt le xs \<Longrightarrow> sorted_wrt le (insert_by le x xs)"
proof (induction xs)
  case Nil
  then show ?case by simp
next
  case (Cons y ys)
  show ?case
  proof (cases "le x y")
    case True
    then have "\<forall>z \<in> set ys. le x z" using Cons.prems tr by auto
    with True Cons.prems show ?thesis by simp
  next
    case False
    then have "le y x" using tot by blast
    with False Cons show ?thesis by (auto simp: set_insert_by)
  qed
qed

lemma sorted_df_sort:
  assumes tot: "\<And>a b. le a b \<or> le b a" and tr: "\<And>a b c. le a b \<Longrightarrow> le b c \<Longrightarrow> le a c"
  shows "sorted_wrt le (df_sort le xs)"
proof (induction xs)
  case Nil
  then show ?case by (simp add: df_sort_def)
next
  case (Cons x xs)
  have "df_sort le (x # xs) = insert_by le x (df_sort le xs)" by (simp add: df_sort_def)
  with Cons sorted_insert_by [of le, OF tot tr] show ?case by simp
qed

lemma cell_le_total: "cell_le a b \<or> cell_le b a"
  by (cases a; cases b) auto

lemma cell_le_trans: "cell_le a b \<Longrightarrow> cell_le b c \<Longrightarrow> cell_le a c"
  by (cases a; cases b; cases c) auto

lemma col_le_total: "col_le c a b \<or> col_le c b a"
  by (simp add: col_le_def cell_le_total)

lemma col_le_trans: "col_le c a b \<Longrightarrow> col_le c b d \<Longrightarrow> col_le c a d"
  unfolding col_le_def by (rule cell_le_trans)

lemma col_le_schema:
  "col_le ''Sale_ID'' a b \<longleftrightarrow> Sale_ID a \<le> Sale_ID b"
  "col_le ''Date'' a b \<longleftrightarrow> Date a \<le> Date b"
  "col_le ''Units_Sold'' a b \<longleftrightarrow> Units_Sold a \<le> Units_Sold b"
  "col_le ''Price_Per_Unit'' a b \<longleftrightarrow> Price_Per_Unit a \<le> Price_Per_Unit b"
  "col_le ''Revenue'' a b \<longleftrightarrow> Revenue a \<le> Revenue b"
  "col_le ''Region'' a b \<longleftrightarrow> Region a \<le> Region b"
  "col_le ''Sales_Channel'' a b \<longleftrightarrow> Sales_Channel a \<le> Sales_Channel b"
  by (simp_all add: col_le_def cell_of_def)

lemma table_order_total: "direction d (col_le c) a b \<or> direction d (col_le c) b a"
  using col_le_total [of c a b] by (auto simp: direction_def)

lemma table_order_trans:
  "direction d (col_le c) a b \<Longrightarrow> direction d (col_le c) b e \<Longrightarrow> direction d (col_le c) a e"
  by (auto simp: direction_def intro: col_le_trans split: if_splits)

lemma sorted_table: "sorted_wrt (direction d (col_le c)) (df_sort (direction d (col_le c)) xs)"
proof (rule sorted_df_sort)
  show "direction d (col_le c) a b \<or> direction d (col_le c) b a" for a b
    by (rule table_order_total)
  show "direction d (col_le c) a b \<Longrightarrow> direction d (col_le c) b e
          \<Longrightarrow> direction d (col_le c) a e" for a b e
    by (rule table_order_trans)
qed

lemma sorted_by_field:
  fixes f :: "'a \<Rightarrow> 'b::linorder"
  assumes "\<And>a b. le a b \<longleftrightarrow> f a \<le> f b" and "sorted_wrt (direction d le) s"
  shows "if d then sorted (rev (map f s)) else sorted (map f s)"
proof -
  have le: "le = (\<lambda>a b. f a \<le> f b)"
    by (intro ext) (rule assms(1))
  show ?thesis
  proof (cases d)
    case True
    with assms(2) have "sorted_wrt (\<lambda>a b. f b \<le> f a) s" by (simp add: direction_def le)
    then have "sorted_wrt (\<lambda>a b. f a \<le> f b) (rev s)" by (simp add: sorted_wrt_rev)
    then show ?thesis using True by (simp add: sorted_map rev_map)
  next
    case False
    with assms(2) have "sorted_wrt (\<lambda>a b. f a \<le> f b) s" by (simp add: direction_def le)
    then show ?thesis using False by (simp add: sorted_map)
  qed
qed

lemma pages_ceiling:
  assumes "0 < (p::int)"
  shows "(t + p - 1) div p = \<lceil>real_of_int t / real_of_int p\<rceil>"
proof -
  let ?q = "(- t) div p" and ?r = "(- t) mod p"
  have r: "0 \<le> ?r" "?r < p" using assms by simp_all
  have "- t = ?q * p + ?r" by simp
  then have "t + p - 1 = (p - 1 - ?r) + (- ?q) * p" by (simp add: algebra_simps)
  then have "(t + p - 1) div p = ((p - 1 - ?r) + (- ?q) * p) div p" by (simp only:)
  also have "\<dots> = - ?q + (p - 1 - ?r) div p"
    using assms by (subst div_mult_self1) simp_all
  also have "(p - 1 - ?r) div p = 0"
    using r by (intro div_pos_pos_trivial) simp_all
  finally have "(t + p - 1) div p = - ?q" by simp
  moreover have "\<lceil>real_of_int t / real_of_int p\<rceil> = - ?q"
  proof -
    have "- (real_of_int t / real_of_int p) = real_of_int (- t) / real_of_int p" by simp
    then have "\<lfloor>- (real_of_int t / real_of_int p)\<rfloor> = ?q"
      by (simp only: floor_divide_of_int_eq)
    then show ?thesis by (simp add: ceiling_def)
  qed
  ultimately show ?thesis by simp
qed

lemma length_pages_sum:
  "(\<Sum>k<m. length (take n (drop (k * n) xs))) = min (m * n) (length xs)"
  by (induction m) (auto simp: min_def)

lemma pages_cover:
  assumes "0 < (p::int)" "0 \<le> t"
  shows "t \<le> ((t + p - 1) div p) * p" and "0 \<le> (t + p - 1) div p"
    and "((t + p - 1) div p - 1) * p < t \<or> t = 0"
proof -
  have m: "0 \<le> (t + p - 1) mod p" "(t + p - 1) mod p < p" using assms by simp_all
  moreover have e: "(t + p - 1) div p * p + (t + p - 1) mod p = t + p - 1" by simp
  ultimately show "t \<le> ((t + p - 1) div p) * p" by linarith
  show "0 \<le> (t + p - 1) div p"
    using assms by (simp add: pos_imp_zdiv_nonneg_iff)
  have "((t + p - 1) div p - 1) * p = (t + p - 1) div p * p - p" by (simp add: algebra_simps)
  with m e have "((t + p - 1) div p - 1) * p \<le> t - 1" by linarith
  then show "((t + p - 1) div p - 1) * p < t \<or> t = 0" by simp
qed

lemma sum_pages_int:
  fixes g :: "int \<Rightarrow> nat"
  assumes "0 \<le> m"
  shows "(\<Sum>k = 1..m. int (g k)) = int (\<Sum>k<nat m. g (int k + 1))"
proof -
  have "(\<Sum>k = 1..m. int (g k)) = (\<Sum>k<nat m. int (g (int k + 1)))"
    by (rule sum.reindex_bij_witness [where i = "\<lambda>k. int k + 1" and j = "\<lambda>k. nat (k - 1)"])
      (use assms in auto)
  then show ?thesis by simp
qed

lemma slice_in_range:
  assumes "0 \<le> offset" "offset < 2 ^ 63" "0 \<le> len" "len < 2 ^ 64"
  shows "df_slice offset len xs = Inr (take (nat len) (drop (nat offset) xs))"
proof -
  let ?n = "int (length xs)"
  have "take (nat (max 0 (min ?n (offset + len)) - max 0 (min ?n offset)))
          (drop (nat (max 0 (min ?n offset))) xs) = take (nat len) (drop (nat offset) xs)"
  proof (cases "?n \<le> offset")
    case True
    then show ?thesis using assms by (simp add: min_def max_def)
  next
    case False
    then have o: "max 0 (min ?n offset) = offset" using assms by simp
    show ?thesis
    proof (cases "offset + len \<le> ?n")
      case True
      then show ?thesis using assms o by (simp add: min_def max_def)
    next
      case False
      then have "max 0 (min ?n (offset + len)) = ?n" using assms by simp
      moreover have "length (drop (nat offset) xs) \<le> nat len"
        using False assms by simp
      moreover have "length (drop (nat offset) xs) \<le> nat (?n - offset)"
        using assms by simp
      ultimately show ?thesis using o by simp
    qed
  qed
  then show ?thesis
    using assms by (simp add: df_slice_def Let_def)
qed

lemma slice_overflow:
  "2 ^ 63 \<le> offset \<or> 2 ^ 64 \<le> len \<Longrightarrow> 0 \<le> len \<Longrightarrow> df_slice offset len xs = Inl OverflowError"
  by (auto simp: df_slice_def Let_def)

lemma dec_digits_small: "n < 10 \<Longrightarrow> dec_digits n = [digit_char n]"
  by (simp add: dec_digits.simps)

lemma dec_digits_two:
  "10 \<le> n \<Longrightarrow> n < 100 \<Longrightarrow> dec_digits n = [digit_char (n div 10), digit_char (n mod 10)]"
  by (subst dec_digits.simps) (simp add: dec_digits_small)

lemma dec_digits_three:
  "100 \<le> n \<Longrightarrow> n < 1000 \<Longrightarrow>
   dec_digits n = [digit_char (n div 100), digit_char (n div 10 mod 10), digit_char (n mod 10)]"
  by (subst dec_digits.simps) (simp add: dec_digits_two div_mult2_eq [symmetric])

lemma dec_digits_four:
  "1000 \<le> n \<Longrightarrow> n < 10000 \<Longrightarrow>
   dec_digits n = [digit_char (n div 1000), digit_char (n div 100 mod 10),
                   digit_char (n div 10 mod 10), digit_char (n mod 10)]"
  by (subst dec_digits.simps) (simp add: dec_digits_three div_mult2_eq [symmetric])

lemma nth_digit:
  "0 \<le> y \<Longrightarrow> ''0123456789'' ! nat (y div 10) = digit_char (nat y div 10)"
  "0 \<le> y \<Longrightarrow> ''0123456789'' ! nat (y mod 10) = digit_char (nat y mod 10)"
  "0 \<le> y \<Longrightarrow> ''0123456789'' ! nat (y div 100) = digit_char (nat y div 100)"
  "0 \<le> y \<Longrightarrow> ''0123456789'' ! nat (y div 1000) = digit_char (nat y div 1000)"
  "0 \<le> y \<Longrightarrow> ''0123456789'' ! nat (y div 10 mod 10) = digit_char (nat y div 10 mod 10)"
  "0 \<le> y \<Longrightarrow> ''0123456789'' ! nat (y div 100 mod 10) = digit_char (nat y div 100 mod 10)"
  by (simp_all only: digit_char_def nat_div_distrib nat_mod_distrib nat_numeral
      pos_imp_zdiv_nonneg_iff zero_less_numeral)

lemma two_digits_dec:
  assumes "0 \<le> m"
  shows "two_digits m = [digit_char (nat m div 10), digit_char (nat m mod 10)]"
  using assms by (simp only: two_digits_def nth_digit)

lemma py_str_year:
  assumes "1 \<le> y" "y \<le> 9999"
  shows "py_str y = year_digits y"
proof -
  have p: "py_str y = dec_digits (nat y)" and y: "0 \<le> y"
    using assms by (simp_all add: py_str_def)
  consider "y < 10" | "10 \<le> y" "y < 100" | "100 \<le> y" "y < 1000" | "1000 \<le> y"
    by linarith
  then show ?thesis
  proof cases
    case 1
    then have "dec_digits (nat y) = [digit_char (nat y)]"
      using y by (simp add: dec_digits_small)
    with 1 show ?thesis by (simp add: p year_digits_def digit_char_def)
  next
    case 2
    then have "dec_digits (nat y) = [digit_char (nat y div 10), digit_char (nat y mod 10)]"
      by (simp add: dec_digits_two)
    with 2 show ?thesis by (simp add: p year_digits_def nth_digit [OF y])
  next
    case 3
    then have "dec_digits (nat y) = [digit_char (nat y div 100),
        digit_char (nat y div 10 mod 10), digit_char (nat y mod 10)]"
      by (simp add: dec_digits_three)
    with 3 show ?thesis by (simp add: p year_digits_def nth_digit [OF y])
  next
    case 4
    then have "dec_digits (nat y) = [digit_char (nat y div 1000),
        digit_char (nat y div 100 mod 10), digit_char (nat y div 10 mod 10),
        digit_char (nat y mod 10)]"
      using assms by (simp add: dec_digits_four)
    with 4 show ?thesis by (simp add: p year_digits_def nth_digit [OF y])
  qed
qed

lemma fmt_two_digits:
  assumes "0 \<le> m" "m \<le> 99"
  shows "fmt_0d 2 m = two_digits m"
proof (cases "m < 10")
  case True
  then have "dec_digits (nat \<bar>m\<bar>) = [digit_char (nat m)]"
    using assms by (simp add: dec_digits_small)
  then have "fmt_0d 2 m = [CHR ''0'', digit_char (nat m)]"
    using assms by (simp add: fmt_0d_def Let_def)
  moreover have "nat m div 10 = 0" "nat m mod 10 = nat m" using True assms by simp_all
  ultimately show ?thesis
    using assms by (simp add: two_digits_dec digit_char_def)
next
  case False
  then have "dec_digits (nat \<bar>m\<bar>) = [digit_char (nat m div 10), digit_char (nat m mod 10)]"
    using assms by (simp add: dec_digits_two)
  then have "fmt_0d 2 m = [digit_char (nat m div 10), digit_char (nat m mod 10)]"
    using assms by (simp add: fmt_0d_def Let_def)
  then show ?thesis
    using assms by (simp add: two_digits_dec)
qed

lemma strftime_iso: "calendar_date d \<Longrightarrow> strftime_ymd d = iso_date d"
  by (simp add: calendar_date_def strftime_ymd_def iso_date_def dt_year_def dt_month_def
      dt_day_def py_str_year fmt_two_digits)

lemma table_record_fields:
  "map Sale_ID (map table_record xs) = map Sale_ID xs"
  "map Units_Sold (map table_record xs) = map Units_Sold xs"
  "map Price_Per_Unit (map table_record xs) = map Price_Per_Unit xs"
  "map Revenue (map table_record xs) = map Revenue xs"
  "map Region (map table_record xs) = map Region xs"
  "map Sales_Channel (map table_record xs) = map Sales_Channel xs"
  "map extra (map table_record xs) = map extra xs"
  "map Date (map table_record xs) = map (\<lambda>r. strftime_ymd (Date r)) xs"
  by (simp_all add: table_record_def comp_def)

lemma get_table_data_run:
  assumes "df p = Some f" and "has_columns required_columns f"
    and "sort_by \<in> set required_columns"
    and "1 \<le> per_page" and "per_page < 2 ^ 64" and "1 \<le> page"
    and "(page - 1) * per_page < 2 ^ 63"
  shows "get_table_data p page per_page sort_by sort_order =
     Inr \<lparr>data = map table_record (take (nat per_page) (drop (nat ((page - 1) * per_page))
              (df_sort (direction (sort_order \<noteq> ''asc'') (col_le sort_by)) (rows f)))),
       total = int (length (rows f)),
       pages = (int (length (rows f)) + per_page - 1) div per_page,
       current_page = Some page\<rparr>"
proof -
  have "0 \<le> (page - 1) * per_page" using assms(4,6) by simp
  then have "df_slice ((page - 1) * per_page) per_page xs
               = Inr (take (nat per_page) (drop (nat ((page - 1) * per_page)) xs))" for xs :: "sale list"
    using assms(4,5,7) by (intro slice_in_range) simp_all
  moreover have "has_columns [sort_by] f" "has_columns [''Date''] f"
    using assms(2,3) by (auto intro: has_columns_one simp: required_columns_def)
  ultimately show ?thesis
    using assms(1,4)
    by (simp add: get_table_data_def Let_def length_df_sort)
qed

text \<open>
  C2, as the code has it. For a frame with the columns of the schema and calendar dates,
  a column of the schema as \<^verbatim>\<open>sort_by\<close> and \<open>1 \<le> per_page < 2^64\<close>, there is one
  arrangement of the rows, a permutation of them in which the values of the named
  column ascend for \<^verbatim>\<open>'asc'\<close> and descend otherwise, such that every page
  \<open>page \<ge> 1\<close> whose offset \<open>(page - 1) * per_page\<close> is below \<open>2^63\<close> is returned as the
  records from that offset up to \<open>page * per_page\<close> of it, field by field, with the date
  as text, the number of rows as \<open>total\<close> and its quotient by \<open>per_page\<close>, rounded up, as
  \<open>pages\<close>. The call leaves the processor as it was, and the same call on it gives the
  same result. A page that starts at or after the end has no records, with the same
  \<open>total\<close> and \<open>pages\<close>; the pages \<open>1, \<dots>, pages\<close> are all within the bound and hold
  \<open>total\<close> records together.
\<close>

theorem get_table_data_pages:
  assumes "df p = Some f" and "has_columns required_columns f"
    and "sort_by \<in> set required_columns"
    and "1 \<le> per_page" and "per_page < 2 ^ 64"
    and "int (length (rows f)) < 2 ^ 63"
    and "\<forall>r \<in> set (rows f). calendar_date (Date r)"
  shows "\<exists>sorted_df T.
      mset sorted_df = mset (rows f)
    \<and> (sort_by = ''Sale_ID'' \<longrightarrow>
          (if sort_order = ''asc'' then sorted (map Sale_ID sorted_df)
           else sorted (rev (map Sale_ID sorted_df))))
    \<and> (sort_by = ''Date'' \<longrightarrow>
          (if sort_order = ''asc'' then sorted (map Date sorted_df)
           else sorted (rev (map Date sorted_df))))
    \<and> (sort_by = ''Units_Sold'' \<longrightarrow>
          (if sort_order = ''asc'' then sorted (map Units_Sold sorted_df)
           else sorted (rev (map Units_Sold sorted_df))))
    \<and> (sort_by = ''Price_Per_Unit'' \<longrightarrow>
          (if sort_order = ''asc'' then sorted (map Price_Per_Unit sorted_df)
           else sorted (rev (map Price_Per_Unit sorted_df))))
    \<and> (sort_by = ''Revenue'' \<longrightarrow>
          (if sort_order = ''asc'' then sorted (map Revenue sorted_df)
           else sorted (rev (map Revenue sorted_df))))
    \<and> (sort_by = ''Region'' \<longrightarrow>
          (if sort_order = ''asc'' then sorted (map Region sorted_df)
           else sorted (rev (map Region sorted_df))))
    \<and> (sort_by = ''Sales_Channel'' \<longrightarrow>
          (if sort_order = ''asc'' then sorted (map Sales_Channel sorted_df)
           else sorted (rev (map Sales_Channel sorted_df))))
    \<and> (\<forall>page. 1 \<le> page \<and> (page - 1) * per_page < 2 ^ 63 \<longrightarrow>
          (let slice = take (nat per_page) (drop (nat ((page - 1) * per_page)) sorted_df)
           in get_table_data p page per_page sort_by sort_order = Inr (T page)
            \<and> get_table_data_call p page per_page sort_by sort_order = (Inr (T page), p)
            \<and> get_table_data_call
                  (snd (get_table_data_call p page per_page sort_by sort_order))
                  page per_page sort_by sort_order
                = get_table_data_call p page per_page sort_by sort_order
            \<and> map Sale_ID (data (T page)) = map Sale_ID slice
            \<and> map Date (data (T page)) = map (\<lambda>r. iso_date (Date r)) slice
            \<and> map Units_Sold (data (T page)) = map Units_Sold slice
            \<and> map Price_Per_Unit (data (T page)) = map Price_Per_Unit slice
            \<and> map Revenue (data (T page)) = map Revenue slice
            \<and> map Region (data (T page)) = map Region slice
            \<and> map Sales_Channel (data (T page)) = map Sales_Channel slice
            \<and> map extra (data (T page)) = map extra slice
            \<and> total (T page) = int (length (rows f))
            \<and> pages (T page) = \<lceil>real (length (rows f)) / real_of_int per_page\<rceil>
            \<and> current_page (T page) = Some page
            \<and> (int (length (rows f)) \<le> (page - 1) * per_page \<longrightarrow> data (T page) = [])))
    \<and> (\<forall>page. 1 \<le> page \<and> page \<le> \<lceil>real (length (rows f)) / real_of_int per_page\<rceil>
          \<longrightarrow> (page - 1) * per_page < 2 ^ 63)
    \<and> (\<Sum>page = 1..\<lceil>real (length (rows f)) / real_of_int per_page\<rceil>.
          int (length (data (T page)))) = int (length (rows f))"
proof -
  define desc where "desc \<longleftrightarrow> sort_order \<noteq> ''asc''"
  define s where "s = df_sort (direction desc (col_le sort_by)) (rows f)"
  define n where "n = nat per_page"
  define m where "m = (int (length (rows f)) + per_page - 1) div per_page"
  define T where "T page =
     \<lparr>data = map table_record (take n (drop (nat ((page - 1) * per_page)) s)),
      total = int (length (rows f)), pages = m, current_page = Some page\<rparr>" for page
  have pos: "0 < per_page" using assms(4) by simp
  have len: "length s = length (rows f)" by (simp add: s_def length_df_sort)
  have perm: "mset s = mset (rows f)" by (simp add: s_def mset_df_sort)
  have srt: "sorted_wrt (direction desc (col_le sort_by)) s"
    unfolding s_def by (rule sorted_table)
  have asc: "(if sort_order = ''asc'' then A else B) = (if desc then B else A)" for A B :: bool
    by (simp add: desc_def)
  have o1: "sort_by = ''Sale_ID'' \<longrightarrow>
          (if sort_order = ''asc'' then sorted (map Sale_ID s) else sorted (rev (map Sale_ID s)))"
    unfolding asc using sorted_by_field [of "col_le ''Sale_ID''" Sale_ID desc s] srt
    by (cases desc) (auto simp: col_le_schema)
  have o2: "sort_by = ''Date'' \<longrightarrow>
          (if sort_order = ''asc'' then sorted (map Date s) else sorted (rev (map Date s)))"
    unfolding asc using sorted_by_field [of "col_le ''Date''" Date desc s] srt
    by (cases desc) (auto simp: col_le_schema)
  have o3: "sort_by = ''Units_Sold'' \<longrightarrow>
          (if sort_order = ''asc'' then sorted (map Units_Sold s)
           else sorted (rev (map Units_Sold s)))"
    unfolding asc using sorted_by_field [of "col_le ''Units_Sold''" Units_Sold desc s] srt
    by (cases desc) (auto simp: col_le_schema)
  have o4: "sort_by = ''Price_Per_Unit'' \<longrightarrow>
          (if sort_order = ''asc'' then sorted (map Price_Per_Unit s)
           else sorted (rev (map Price_Per_Unit s)))"
    unfolding asc
    using sorted_by_field [of "col_le ''Price_Per_Unit''" Price_Per_Unit desc s] srt
    by (cases desc) (auto simp: col_le_schema)
  have o5: "sort_by = ''Revenue'' \<longrightarrow>
          (if sort_order = ''asc'' then sorted (map Revenue s) else sorted (rev (map Revenue s)))"
    unfolding asc using sorted_by_field [of "col_le ''Revenue''" Revenue desc s] srt
    by (cases desc) (auto simp: col_le_schema)
  have o6: "sort_by = ''Region'' \<longrightarrow>
          (if sort_order = ''asc'' then sorted (map Region s) else sorted (rev (map Region s)))"
    unfolding asc using sorted_by_field [of "col_le ''Region''" Region desc s] srt
    by (cases desc) (auto simp: col_le_schema)
  have o7: "sort_by = ''Sales_Channel'' \<longrightarrow>
          (if sort_order = ''asc'' then sorted (map Sales_Channel s)
           else sorted (rev (map Sales_Channel s)))"
    unfolding asc
    using sorted_by_field [of "col_le ''Sales_Channel''" Sales_Channel desc s] srt
    by (cases desc) (auto simp: col_le_schema)
  have m_ceil: "m = \<lceil>real (length (rows f)) / real_of_int per_page\<rceil>"
    using pages_ceiling [OF pos, of "int (length (rows f))"] by (simp add: m_def)
  have run: "get_table_data p page per_page sort_by sort_order = Inr (T page)"
    if "1 \<le> page" "(page - 1) * per_page < 2 ^ 63" for page
    using get_table_data_run [OF assms(1,2,3,4,5) that, of sort_order]
    by (simp add: T_def s_def n_def m_def desc_def)
  have dates: "map (\<lambda>r. strftime_ymd (Date r)) xs = map (\<lambda>r. iso_date (Date r)) xs"
    if "set xs \<subseteq> set s" for xs
  proof (rule map_cong [OF refl])
    fix r assume "r \<in> set xs"
    with that have "r \<in> set (rows f)" by (auto simp: s_def set_df_sort)
    with assms(7) show "strftime_ymd (Date r) = iso_date (Date r)"
      by (simp add: strftime_iso)
  qed
  have slice_sub: "set (take n (drop k s)) \<subseteq> set s" for k
    by (meson set_take_subset set_drop_subset subset_trans)
  have beyond: "data (T page) = []"
    if "1 \<le> page" and "int (length (rows f)) \<le> (page - 1) * per_page" for page
  proof -
    have "length s \<le> nat ((page - 1) * per_page)"
      using that len by simp
    then show ?thesis by (simp add: T_def)
  qed
  have m0: "0 \<le> m" and cover: "int (length (rows f)) \<le> m * per_page"
    and last: "(m - 1) * per_page < int (length (rows f)) \<or> int (length (rows f)) = 0"
    using pages_cover [OF pos, of "int (length (rows f))"] by (simp_all add: m_def)
  have bound: "(page - 1) * per_page < 2 ^ 63" if "1 \<le> page" "page \<le> m" for page
  proof -
    have "(page - 1) * per_page \<le> (m - 1) * per_page"
      using that pos by (intro mult_right_mono) simp_all
    moreover have "(m - 1) * per_page < 2 ^ 63"
    proof (cases "length (rows f) = 0")
      case True
      then have "m = 0" using pos by (simp add: m_def)
      with that show ?thesis by simp
    next
      case False
      with last assms(6) show ?thesis by simp
    qed
    ultimately show ?thesis by simp
  qed
  have "(\<Sum>page = 1..m. int (length (data (T page))))
          = int (\<Sum>k<nat m. length (data (T (int k + 1))))"
    using m0 by (rule sum_pages_int)
  also have "(\<Sum>k<nat m. length (data (T (int k + 1))))
                = (\<Sum>k<nat m. length (take n (drop (k * n) s)))"
    using pos by (simp add: T_def n_def nat_mult_distrib)
  also have "\<dots> = min (nat m * n) (length s)"
    by (rule length_pages_sum)
  also have "\<dots> = length (rows f)"
  proof -
    have "int (nat m * n) = m * per_page" using m0 pos by (simp add: n_def)
    with cover have "length (rows f) \<le> nat m * n" by linarith
    then show ?thesis by (simp add: len)
  qed
  finally have total_sum:
    "(\<Sum>page = 1..m. int (length (data (T page)))) = int (length (rows f))" .
  have pagewise: "\<forall>page. 1 \<le> page \<and> (page - 1) * per_page < 2 ^ 63 \<longrightarrow>
          (let slice = take (nat per_page) (drop (nat ((page - 1) * per_page)) s)
           in get_table_data p page per_page sort_by sort_order = Inr (T page)
            \<and> get_table_data_call p page per_page sort_by sort_order = (Inr (T page), p)
            \<and> get_table_data_call
                  (snd (get_table_data_call p page per_page sort_by sort_order))
                  page per_page sort_by sort_order
                = get_table_data_call p page per_page sort_by sort_order
            \<and> map Sale_ID (data (T page)) = map Sale_ID slice
            \<and> map Date (data (T page)) = map (\<lambda>r. iso_date (Date r)) slice
            \<and> map Units_Sold (data (T page)) = map Units_Sold slice
            \<and> map Price_Per_Unit (data (T page)) = map Price_Per_Unit slice
            \<and> map Revenue (data (T page)) = map Revenue slice
            \<and> map Region (data (T page)) = map Region slice
            \<and> map Sales_Channel (data (T page)) = map Sales_Channel slice
            \<and> map extra (data (T page)) = map extra slice
            \<and> total (T page) = int (length (rows f))
            \<and> pages (T page) = \<lceil>real (length (rows f)) / real_of_int per_page\<rceil>
            \<and> current_page (T page) = Some page
            \<and> (int (length (rows f)) \<le> (page - 1) * per_page \<longrightarrow> data (T page) = []))"
  proof (intro allI impI)
    fix page assume pg: "1 \<le> page \<and> (page - 1) * per_page < 2 ^ 63"
    let ?slice = "take (nat per_page) (drop (nat ((page - 1) * per_page)) s)"
    have d: "data (T page) = map table_record ?slice"
      by (simp add: T_def n_def)
    have sub: "set ?slice \<subseteq> set s"
      unfolding n_def [symmetric] by (rule slice_sub)
    have r1: "get_table_data p page per_page sort_by sort_order = Inr (T page)"
      using run pg by simp
    have r2: "get_table_data_call p page per_page sort_by sort_order = (Inr (T page), p)"
      by (simp add: get_table_data_call_def r1)
    have r3: "get_table_data_call
                  (snd (get_table_data_call p page per_page sort_by sort_order))
                  page per_page sort_by sort_order
                = get_table_data_call p page per_page sort_by sort_order"
      by (simp add: get_table_data_call_def)
    have f1: "map Sale_ID (data (T page)) = map Sale_ID ?slice"
      unfolding d by (rule table_record_fields)
    have f2: "map Date (data (T page)) = map (\<lambda>r. iso_date (Date r)) ?slice"
      unfolding d table_record_fields(8) using sub by (rule dates)
    have f3: "map Units_Sold (data (T page)) = map Units_Sold ?slice"
      unfolding d by (rule table_record_fields)
    have f4: "map Price_Per_Unit (data (T page)) = map Price_Per_Unit ?slice"
      unfolding d by (rule table_record_fields)
    have f5: "map Revenue (data (T page)) = map Revenue ?slice"
      unfolding d by (rule table_record_fields)
    have f6: "map Region (data (T page)) = map Region ?slice"
      unfolding d by (rule table_record_fields)
    have f7: "map Sales_Channel (data (T page)) = map Sales_Channel ?slice"
      unfolding d by (rule table_record_fields)
    have f8: "map extra (data (T page)) = map extra ?slice"
      unfolding d by (rule table_record_fields)
    have t1: "total (T page) = int (length (rows f))"
      by (simp add: T_def)
    have t2: "pages (T page) = \<lceil>real (length (rows f)) / real_of_int per_page\<rceil>"
      using m_ceil by (simp add: T_def)
    have t3: "current_page (T page) = Some page"
      by (simp add: T_def)
    have t4: "int (length (rows f)) \<le> (page - 1) * per_page \<longrightarrow> data (T page) = []"
      using beyond [of page] pg by blast
    from r1 r2 r3 f1 f2 f3 f4 f5 f6 f7 f8 t1 t2 t3 t4
    show "let slice = take (nat per_page) (drop (nat ((page - 1) * per_page)) s)
           in get_table_data p page per_page sort_by sort_order = Inr (T page)
            \<and> get_table_data_call p page per_page sort_by sort_order = (Inr (T page), p)
            \<and> get_table_data_call
                  (snd (get_table_data_call p page per_page sort_by sort_order))
                  page per_page sort_by sort_order
                = get_table_data_call p page per_page sort_by sort_order
            \<and> map Sale_ID (data (T page)) = map Sale_ID slice
            \<and> map Date (data (T page)) = map (\<lambda>r. iso_date (Date r)) slice
            \<and> map Units_Sold (data (T page)) = map Units_Sold slice
            \<and> map Price_Per_Unit (data (T page)) = map Price_Per_Unit slice
            \<and> map Revenue (data (T page)) = map Revenue slice
            \<and> map Region (data (T page)) = map Region slice
            \<and> map Sales_Channel (data (T page)) = map Sales_Channel slice
            \<and> map extra (data (T page)) = map extra slice
            \<and> total (T page) = int (length (rows f))
            \<and> pages (T page) = \<lceil>real (length (rows f)) / real_of_int per_page\<rceil>
            \<and> current_page (T page) = Some page
            \<and> (int (length (rows f)) \<le> (page - 1) * per_page \<longrightarrow> data (T page) = [])"
      unfolding Let_def by (intro conjI)
  qed
  have bounds: "\<forall>page. 1 \<le> page \<and> page \<le> \<lceil>real (length (rows f)) / real_of_int per_page\<rceil>
          \<longrightarrow> (page - 1) * per_page < 2 ^ 63"
    using bound unfolding m_ceil by blast
  from perm o1 o2 o3 o4 o5 o6 o7 pagewise bounds total_sum [unfolded m_ceil]
  show ?thesis
    by (intro exI [of _ s] exI [of _ T] conjI)
qed

lemmas example_defs = table_processor_def sale_30_def sale_10_def sale_20_def example_sale_def

lemma iso_example_dates:
  "iso_date (2025, 3, 2) = ''2025-03-02''" "iso_date (2025, 3, 3) = ''2025-03-03''"
  by (simp_all add: iso_date_def year_digits_def two_digits_def)

theorem get_table_data_pages_witness:
  "df table_processor = Some \<lparr>columns = required_columns, rows = [sale_30, sale_10, sale_20]\<rparr>
     \<and> has_columns required_columns \<lparr>columns = required_columns, rows = [sale_30, sale_10, sale_20]\<rparr>
     \<and> ''Revenue'' \<in> set required_columns \<and> (1::int) \<le> 2 \<and> (2::int) < 2 ^ 64
     \<and> map Date [sale_30, sale_10, sale_20] = [(2025, 3, 1), (2025, 3, 2), (2025, 3, 3)]
     \<and> (\<exists>t. get_table_data table_processor 1 2 ''Revenue'' ''asc'' = Inr t
            \<and> map Revenue (data t) = [10, 20]
            \<and> map Date (data t) = [''2025-03-02'', ''2025-03-03'']
            \<and> total t = 3 \<and> pages t = 2)"
proof -
  let ?f = "\<lparr>columns = required_columns, rows = [sale_30, sale_10, sale_20]\<rparr>"
  have a: "df table_processor = Some ?f"
    by (simp add: table_processor_def)
  have b: "has_columns required_columns ?f"
    by (simp add: has_columns_def required_columns_def)
  have c: "''Revenue'' \<in> set required_columns"
    by (simp add: required_columns_def)
  have d: "(1::int) \<le> 2" "(2::int) < 2 ^ 64" "int (length (rows ?f)) < 2 ^ 63" by simp_all
  have dts: "map Date [sale_30, sale_10, sale_20] = [(2025, 3, 1), (2025, 3, 2), (2025, 3, 3)]"
    by (simp add: example_defs)
  then have e: "\<forall>r \<in> set (rows ?f). calendar_date (Date r)"
    by (simp add: calendar_date_def)
  note th = get_table_data_pages [OF a b c d e, of "''asc''"]
  have "\<exists>t. get_table_data table_processor 1 2 ''Revenue'' ''asc'' = Inr t
          \<and> total t = 3 \<and> pages t = \<lceil>(3::real) / 2\<rceil>"
    using th
  proof (elim exE conjE, goal_cases)
    case (1 s T)
    have "1 \<le> (1::int) \<and> (1 - 1) * 2 < (2::int) ^ 63" by simp
    with 1(9) [THEN spec, of 1] show ?case by (simp add: Let_def)
  qed
  then obtain t where run: "get_table_data table_processor 1 2 ''Revenue'' ''asc'' = Inr t"
    and tot: "total t = 3" and pgs: "pages t = \<lceil>(3::real) / 2\<rceil>"
    by (elim exE conjE)
  have "\<lceil>(3::real) / 2\<rceil> = 2" by simp
  with pgs have pgs2: "pages t = 2" by simp
  have "get_table_data table_processor 1 2 ''Revenue'' ''asc''
          = Inr \<lparr>data = map table_record [sale_10, sale_20], total = 3, pages = 2,
                 current_page = Some 1\<rparr>"
    by (simp add: get_table_data_def example_defs Let_def has_columns_def
        required_columns_def df_sort_def direction_def df_slice_def col_le_def cell_of_def)
  with run have dt: "data t = map table_record [sale_10, sale_20]"
    by auto
  have rv: "map Revenue (data t) = [10, 20]"
    unfolding dt by (simp add: table_record_def example_defs)
  have "strftime_ymd (2025, 3, 2) = ''2025-03-02''" "strftime_ymd (2025, 3, 3) = ''2025-03-03''"
    using strftime_iso [of "(2025, 3, 2)"] strftime_iso [of "(2025, 3, 3)"]
    by (simp_all add: calendar_date_def iso_example_dates)
  then have dd: "map Date (data t) = [''2025-03-02'', ''2025-03-03'']"
    unfolding dt by (simp add: table_record_def example_defs)
  from a b c dts run rv dd tot pgs2 show ?thesis
    by (intro conjI exI [of _ t]) simp_all
qed

text \<open>
  The claim promises a page for every \<open>page \<ge> 1\<close>. A page whose offset does not fit in
  64 bits is refused by \<^verbatim>\<open>slice\<close>.
\<close>

theorem get_table_data_huge_page_counterexample:
  "(1::int) \<le> 9223372036854775809
     \<and> get_table_data table_processor 9223372036854775809 1 ''Revenue'' ''asc''
         = Inl OverflowError"
  by (simp add: get_table_data_def table_processor_def has_columns_def required_columns_def
      Let_def df_slice_def)

section \<open>Properties of the key performance indicators\<close>

lemma int64_range: "- (2 ^ 63) \<le> int64 x" "int64 x < 2 ^ 63"
proof -
  have "0 \<le> (x + 2 ^ 63) mod (2 ^ 64 :: int)" "(x + 2 ^ 63) mod (2 ^ 64 :: int) < 2 ^ 64"
    by simp_all
  moreover have "(2::int) ^ 64 = 2 * 2 ^ 63" by simp
  ultimately show "- (2 ^ 63) \<le> int64 x" "int64 x < 2 ^ 63"
    unfolding int64_def by linarith+
qed

lemma int64_congruent: "(int64 x - x) mod 2 ^ 64 = 0"
proof -
  have "int64 x - x = (x + 2 ^ 63) mod 2 ^ 64 - (x + 2 ^ 63)"
    by (simp add: int64_def)
  also have "\<dots> = - (2 ^ 64 * ((x + 2 ^ 63) div 2 ^ 64))"
    by (simp add: minus_div_mult_eq_mod [symmetric])
  finally show ?thesis by simp
qed

lemma int64_exact: "- (2 ^ 63) \<le> x \<Longrightarrow> x < 2 ^ 63 \<Longrightarrow> int64 x = x"
  by (simp add: int64_def)

lemma int64_sum: "is_int64_sum (int64 (sum_list xs)) xs"
  unfolding is_int64_sum_def using int64_range int64_congruent by blast


lemma top_entries_other:
  "k \<noteq> name \<Longrightarrow> k \<noteq> name_revenue \<Longrightarrow> top_entries name name_revenue best k = None"
  by (simp add: top_entries_def split: list.splits)

lemma sum_list_real_of_int:
  "sum_list (map (\<lambda>r. real_of_int (g r)) xs) = real_of_int (sum_list (map g xs))"
  by (induction xs) simp_all

lemma series_mean_nonempty:
  "xs \<noteq> [] \<Longrightarrow> py_float (series_mean (map g xs)) = Inr (sum_list (map g xs) / real (length xs))"
  by (simp add: py_float_def series_mean_def)

lemma get_kpi_metrics_run:
  assumes "df p = Some f" and "has_columns required_columns f" and "rows f \<noteq> []"
  shows "get_kpi_metrics p =
     Inr ([''total_revenue'' \<mapsto> PFloat (sum_list (map Revenue (rows f))),
           ''total_units'' \<mapsto> PInt (int64 (sum_list (map Units_Sold (rows f)))),
           ''avg_price'' \<mapsto>
             PFloat (sum_list (map Price_Per_Unit (rows f)) / real (length (rows f))),
           ''total_transactions'' \<mapsto> PInt (int (length (rows f))),
           ''avg_units_per_sale'' \<mapsto>
             PFloat (real_of_int (sum_list (map Units_Sold (rows f))) / real (length (rows f))),
           ''revenue_per_transaction'' \<mapsto>
             PFloat (sum_list (map Revenue (rows f)) / real (length (rows f)))]
          ++ top_entries ''top_region'' ''top_region_revenue'' (top_performer Region (rows f))
          ++ top_entries ''top_channel'' ''top_channel_revenue''
               (top_performer Sales_Channel (rows f)))"
  using assms(1,3) has_columns_schema(5,6) [OF assms(2)]
  by (simp add: get_kpi_metrics_def series_mean_nonempty sum_list_real_of_int Let_def)

lemma kpi_lookup:
  assumes "k \<noteq> ''top_region''" "k \<noteq> ''top_region_revenue''"
    "k \<noteq> ''top_channel''" "k \<noteq> ''top_channel_revenue''"
  shows "(base ++ top_entries ''top_region'' ''top_region_revenue'' x
               ++ top_entries ''top_channel'' ''top_channel_revenue'' y) k = base k"
  using assms by (simp add: map_add_def top_entries_other)

text \<open>
  C3, as the code has it. For a frame with the columns of the schema and at least one
  row, \<^verbatim>\<open>get_kpi_metrics\<close> returns a dictionary whose \<^verbatim>\<open>total_revenue\<close> is the sum of
  \<^verbatim>\<open>Revenue\<close>, \<^verbatim>\<open>total_units\<close> the 64-bit sum of \<^verbatim>\<open>Units_Sold\<close> (the exact sum when
  that lies in the range of \<^verbatim>\<open>Int64\<close>), \<^verbatim>\<open>avg_price\<close> the mean of \<^verbatim>\<open>Price_Per_Unit\<close>,
  \<^verbatim>\<open>total_transactions\<close> the number of rows, and \<^verbatim>\<open>avg_units_per_sale\<close> and
  \<^verbatim>\<open>revenue_per_transaction\<close> the means of units and of revenue per row. Sums and means
  of floats are exact here; the code's are in floating point.
\<close>

theorem get_kpi_metrics_totals:
  assumes "df p = Some f" and "has_columns required_columns f" and "rows f \<noteq> []"
  shows "\<exists>m units. get_kpi_metrics p = Inr m
     \<and> m ''total_revenue'' = Some (PFloat (sum_list (map Revenue (rows f))))
     \<and> m ''total_units'' = Some (PInt units)
     \<and> is_int64_sum units (map Units_Sold (rows f))
     \<and> (- (2 ^ 63) \<le> sum_list (map Units_Sold (rows f))
          \<and> sum_list (map Units_Sold (rows f)) < 2 ^ 63
        \<longrightarrow> units = sum_list (map Units_Sold (rows f)))
     \<and> m ''avg_price'' =
         Some (PFloat (sum_list (map Price_Per_Unit (rows f)) / real (length (rows f))))
     \<and> m ''total_transactions'' = Some (PInt (int (length (rows f))))
     \<and> m ''avg_units_per_sale'' =
         Some (PFloat (real_of_int (sum_list (map Units_Sold (rows f)))
                        / real (length (rows f))))
     \<and> m ''revenue_per_transaction'' =
         Some (PFloat (sum_list (map Revenue (rows f)) / real (length (rows f))))"
proof -
  let ?units = "int64 (sum_list (map Units_Sold (rows f)))"
  obtain m where run: "get_kpi_metrics p = Inr m" and
    m: "m = [''total_revenue'' \<mapsto> PFloat (sum_list (map Revenue (rows f))),
           ''total_units'' \<mapsto> PInt ?units,
           ''avg_price'' \<mapsto>
             PFloat (sum_list (map Price_Per_Unit (rows f)) / real (length (rows f))),
           ''total_transactions'' \<mapsto> PInt (int (length (rows f))),
           ''avg_units_per_sale'' \<mapsto>
             PFloat (real_of_int (sum_list (map Units_Sold (rows f))) / real (length (rows f))),
           ''revenue_per_transaction'' \<mapsto>
             PFloat (sum_list (map Revenue (rows f)) / real (length (rows f)))]
          ++ top_entries ''top_region'' ''top_region_revenue'' (top_performer Region (rows f))
          ++ top_entries ''top_channel'' ''top_channel_revenue''
               (top_performer Sales_Channel (rows f))"
    using get_kpi_metrics_run [OF assms] by simp
  have c1: "m ''total_revenue'' = Some (PFloat (sum_list (map Revenue (rows f))))"
    unfolding m by (subst kpi_lookup) simp_all
  have c2: "m ''total_units'' = Some (PInt ?units)"
    unfolding m by (subst kpi_lookup) simp_all
  have c3: "is_int64_sum ?units (map Units_Sold (rows f))"
    by (rule int64_sum)
  have c4: "- (2 ^ 63) \<le> sum_list (map Units_Sold (rows f))
          \<and> sum_list (map Units_Sold (rows f)) < 2 ^ 63
        \<longrightarrow> ?units = sum_list (map Units_Sold (rows f))"
    using int64_exact by blast
  have c5: "m ''avg_price'' =
         Some (PFloat (sum_list (map Price_Per_Unit (rows f)) / real (length (rows f))))"
    unfolding m by (subst kpi_lookup) simp_all
  have c6: "m ''total_transactions'' = Some (PInt (int (length (rows f))))"
    unfolding m by (subst kpi_lookup) simp_all
  have c7: "m ''avg_units_per_sale'' =
         Some (PFloat (real_of_int (sum_list (map Units_Sold (rows f)))
                        / real (length (rows f))))"
    unfolding m by (subst kpi_lookup) simp_all
  have c8: "m ''revenue_per_transaction'' =
         Some (PFloat (sum_list (map Revenue (rows f)) / real (length (rows f))))"
    unfolding m by (subst kpi_lookup) simp_all
  from run c1 c2 c3 c4 c5 c6 c7 c8 show ?thesis
    by (intro exI [of _ m] exI [of _ ?units] conjI)
qed

lemmas sales_defs = example_processor_def example_frame_def sale_jan_a_def sale_jan_b_def sale_feb_def example_sale_def

theorem get_kpi_metrics_totals_witness:
  "df example_processor = Some example_frame \<and> has_columns required_columns example_frame
     \<and> rows example_frame \<noteq> []
     \<and> (\<exists>m. get_kpi_metrics example_processor = Inr m
           \<and> m ''total_revenue'' = Some (PFloat 60) \<and> m ''total_units'' = Some (PInt 6)
           \<and> m ''avg_price'' = Some (PFloat 10) \<and> m ''total_transactions'' = Some (PInt 3)
           \<and> m ''avg_units_per_sale'' = Some (PFloat 2)
           \<and> m ''revenue_per_transaction'' = Some (PFloat 20))"
proof -
  have a: "df example_processor = Some example_frame"
    by (simp add: example_processor_def)
  have b: "has_columns required_columns example_frame"
    by (simp add: has_columns_def example_frame_def required_columns_def)
  have c: "rows example_frame \<noteq> []"
    by (simp add: example_frame_def)
  have sums: "sum_list (map Units_Sold (rows example_frame)) = 6"
    "sum_list (map Revenue (rows example_frame)) = 60"
    "sum_list (map Price_Per_Unit (rows example_frame)) = 30"
    "length (rows example_frame) = 3"
    by (simp_all add: sales_defs)
  have d: "\<exists>m. get_kpi_metrics example_processor = Inr m
           \<and> m ''total_revenue'' = Some (PFloat 60) \<and> m ''total_units'' = Some (PInt 6)
           \<and> m ''avg_price'' = Some (PFloat 10) \<and> m ''total_transactions'' = Some (PInt 3)
           \<and> m ''avg_units_per_sale'' = Some (PFloat 2)
           \<and> m ''revenue_per_transaction'' = Some (PFloat 20)"
    using get_kpi_metrics_totals [OF a b c] unfolding sums
  proof (elim exE conjE, goal_cases)
    case (1 m units)
    from 1(5) have "units = 6" by simp
    with 1 show ?case by (intro exI [of _ m]) simp
  qed
  with a b c show ?thesis by simp
qed

text \<open>
  On a frame that is loaded and has no rows the claim fails: the mean of a column is
  \<^verbatim>\<open>None\<close> and \<^verbatim>\<open>float(None)\<close> raises, so no dictionary is returned.
\<close>

theorem get_kpi_metrics_empty_counterexample:
  "df empty_processor = Some \<lparr>columns = required_columns, rows = []\<rparr>
     \<and> get_kpi_metrics empty_processor = Inl TypeError"
  by (simp add: empty_processor_def get_kpi_metrics_def has_columns_def required_columns_def
      series_mean_def py_float_def)

text \<open>
  C7 at its failing input. With a loaded frame of no rows, \<^verbatim>\<open>/api/kpi\<close> answers 500
  with the \<^verbatim>\<open>TypeError\<close> of \<^verbatim>\<open>float(None)\<close>: there is no result that says "no data".
  The \<^verbatim>\<open>{}\<close> of the code is returned only when no frame is loaded at all.
\<close>

theorem get_kpi_empty_dataset:
  "get_kpi \<lparr>files = Map.empty, processor = empty_processor\<rparr> = Reply 500 (Inl TypeError)
     \<and> get_kpi \<lparr>files = Map.empty, processor = \<lparr>csv_path = ''empty.csv'', df = None\<rparr>\<rparr>
           = Reply 200 (Inr Map.empty)"
  by (simp add: get_kpi_def empty_processor_def get_kpi_metrics_def has_columns_def
      required_columns_def series_mean_def py_float_def)

section \<open>Properties of the breakdowns by dimension\<close>

lemma key_agg_row: "key (agg_row g) = fst g"
  by (simp add: agg_row_def)

lemma keys_group_by: "map fst (group_by k xs) = remdups (map k xs)"
  by (simp add: group_by_def comp_def)

lemma group_by_member:
  "g \<in> set (group_by k xs) \<Longrightarrow> snd g = filter (\<lambda>x. k x = fst g) xs \<and> fst g \<in> k ` set xs"
  by (auto simp: group_by_def)

lemma group_by_nonempty: "g \<in> set (group_by k xs) \<Longrightarrow> snd g \<noteq> []"
  by (auto simp: group_by_def filter_empty_conv)

lemma keys_of_sorted_groups:
  assumes "\<And>g. kf (h g) = fst g"
  shows "distinct (map kf (df_sort le (map h (group_by k xs))))"
    and "set (map kf (df_sort le (map h (group_by k xs)))) = k ` set xs"
proof -
  have "mset (map kf (df_sort le ys)) = mset (map kf ys)" for ys
    by (simp add: mset_df_sort)
  then have "mset (map kf (df_sort le (map h (group_by k xs))))
               = mset (map kf (map h (group_by k xs)))" .
  also have "map kf (map h (group_by k xs)) = remdups (map k xs)"
    using assms by (simp add: comp_def flip: keys_group_by)
  finally have m: "mset (map kf (df_sort le (map h (group_by k xs)))) = mset (remdups (map k xs))" .
  show "distinct (map kf (df_sort le (map h (group_by k xs))))"
    using m by (metis distinct_remdups mset_eq_imp_distinct_iff)
  show "set (map kf (df_sort le (map h (group_by k xs)))) = k ` set xs"
    using m by (metis mset_eq_setD set_map set_remdups)
qed

lemma by_revenue_desc_sorted:
  "sorted_wrt (\<lambda>a b. total_revenue b \<le> total_revenue a) (df_sort by_revenue_desc xs)"
proof -
  have "sorted_wrt by_revenue_desc (df_sort by_revenue_desc xs)"
    by (rule sorted_df_sort) (auto simp: by_revenue_desc_def direction_def)
  then show ?thesis by (simp add: by_revenue_desc_def direction_def)
qed

lemma agg_row_units:
  "is_int64_sum (total_units (agg_row (v, xs))) (map Units_Sold xs)"
  "- (2 ^ 63) \<le> sum_list (map Units_Sold xs) \<and> sum_list (map Units_Sold xs) < 2 ^ 63
     \<longrightarrow> total_units (agg_row (v, xs)) = sum_list (map Units_Sold xs)"
  by (simp_all add: agg_row_def int64_sum int64_exact)

lemma revenue_by_rows:
  assumes "df p = Some f" and "has_columns [c, ''Revenue'', ''Units_Sold''] f"
  shows "\<exists>out. revenue_by c k p = Inr out
     \<and> distinct (map key out) \<and> set (map key out) = k ` set (rows f)
     \<and> (\<forall>g \<in> set out.
           total_revenue g = sum_list (map Revenue (filter (\<lambda>r. k r = key g) (rows f))) \<and>
           is_int64_sum (total_units g)
             (map Units_Sold (filter (\<lambda>r. k r = key g) (rows f))) \<and>
           (- (2 ^ 63) \<le> sum_list (map Units_Sold (filter (\<lambda>r. k r = key g) (rows f)))
              \<and> sum_list (map Units_Sold (filter (\<lambda>r. k r = key g) (rows f))) < 2 ^ 63
            \<longrightarrow> total_units g
                  = sum_list (map Units_Sold (filter (\<lambda>r. k r = key g) (rows f)))) \<and>
           transaction_count g = int (length (filter (\<lambda>r. k r = key g) (rows f))))
     \<and> sorted_wrt (\<lambda>a b. total_revenue b \<le> total_revenue a) out"
proof -
  let ?out = "df_sort by_revenue_desc (map agg_row (group_by k (rows f)))"
  have run: "revenue_by c k p = Inr ?out"
    using assms by (simp add: revenue_by_def)
  have each: "\<forall>g \<in> set ?out.
           total_revenue g = sum_list (map Revenue (filter (\<lambda>r. k r = key g) (rows f))) \<and>
           is_int64_sum (total_units g)
             (map Units_Sold (filter (\<lambda>r. k r = key g) (rows f))) \<and>
           (- (2 ^ 63) \<le> sum_list (map Units_Sold (filter (\<lambda>r. k r = key g) (rows f)))
              \<and> sum_list (map Units_Sold (filter (\<lambda>r. k r = key g) (rows f))) < 2 ^ 63
            \<longrightarrow> total_units g
                  = sum_list (map Units_Sold (filter (\<lambda>r. k r = key g) (rows f)))) \<and>
           transaction_count g = int (length (filter (\<lambda>r. k r = key g) (rows f)))"
  proof
    fix g assume "g \<in> set ?out"
    then obtain grp where grp: "grp \<in> set (group_by k (rows f))" "g = agg_row grp"
      by (auto simp: set_df_sort)
    let ?xs = "filter (\<lambda>r. k r = key g) (rows f)"
    have "grp = (key g, ?xs)"
      using group_by_member [OF grp(1)] grp(2) by (metis key_agg_row prod.collapse)
    then have g: "g = agg_row (key g, ?xs)" using grp(2) by simp
    have "total_revenue (agg_row (key g, ?xs)) = sum_list (map Revenue ?xs)"
      "transaction_count (agg_row (key g, ?xs)) = int (length ?xs)"
      by (simp_all add: agg_row_def)
    with agg_row_units [where v = "key g" and xs = ?xs] g
    show "total_revenue g = sum_list (map Revenue ?xs) \<and>
           is_int64_sum (total_units g) (map Units_Sold ?xs) \<and>
           (- (2 ^ 63) \<le> sum_list (map Units_Sold ?xs)
              \<and> sum_list (map Units_Sold ?xs) < 2 ^ 63
            \<longrightarrow> total_units g = sum_list (map Units_Sold ?xs)) \<and>
           transaction_count g = int (length ?xs)"
      by metis
  qed
  have keys: "distinct (map key ?out)" "set (map key ?out) = k ` set (rows f)"
    using keys_of_sorted_groups [of key agg_row by_revenue_desc k "rows f", OF key_agg_row]
    by blast+
  have srt: "sorted_wrt (\<lambda>a b. total_revenue b \<le> total_revenue a) ?out"
    by (rule by_revenue_desc_sorted)
  from run keys each srt show ?thesis
    by (intro exI [of _ ?out] conjI)
qed

text \<open>
  C4, as the code has it. For a frame with the columns of the schema,
  \<^verbatim>\<open>get_revenue_by_region\<close> and \<^verbatim>\<open>get_revenue_by_channel\<close> return one row for each value
  of the dimension: the keys of the rows are distinct and are exactly the values that
  occur in the frame; a row holds the sum of revenue, the 64-bit sum of units (the exact
  sum when that lies in the range of \<^verbatim>\<open>Int64\<close>) and the number of the records of
  its value, and the rows are in non-increasing order of \<^verbatim>\<open>total_revenue\<close>.
\<close>

theorem revenue_by_dimension:
  assumes "df p = Some f" and "has_columns required_columns f"
  shows "\<exists>by_region by_channel.
       get_revenue_by_region p = Inr by_region \<and> get_revenue_by_channel p = Inr by_channel
     \<and> distinct (map key by_region) \<and> set (map key by_region) = Region ` set (rows f)
     \<and> (\<forall>g \<in> set by_region.
           total_revenue g = sum_list (map Revenue (filter (\<lambda>r. Region r = key g) (rows f))) \<and>
           is_int64_sum (total_units g)
             (map Units_Sold (filter (\<lambda>r. Region r = key g) (rows f))) \<and>
           (- (2 ^ 63) \<le> sum_list (map Units_Sold (filter (\<lambda>r. Region r = key g) (rows f)))
              \<and> sum_list (map Units_Sold (filter (\<lambda>r. Region r = key g) (rows f))) < 2 ^ 63
            \<longrightarrow> total_units g
                  = sum_list (map Units_Sold (filter (\<lambda>r. Region r = key g) (rows f)))) \<and>
           transaction_count g = int (length (filter (\<lambda>r. Region r = key g) (rows f))))
     \<and> sorted_wrt (\<lambda>a b. total_revenue b \<le> total_revenue a) by_region
     \<and> distinct (map key by_channel) \<and> set (map key by_channel) = Sales_Channel ` set (rows f)
     \<and> (\<forall>g \<in> set by_channel.
           total_revenue g = sum_list (map Revenue (filter (\<lambda>r. Sales_Channel r = key g) (rows f))) \<and>
           is_int64_sum (total_units g)
             (map Units_Sold (filter (\<lambda>r. Sales_Channel r = key g) (rows f))) \<and>
           (- (2 ^ 63) \<le> sum_list (map Units_Sold (filter (\<lambda>r. Sales_Channel r = key g) (rows f)))
              \<and> sum_list (map Units_Sold (filter (\<lambda>r. Sales_Channel r = key g) (rows f))) < 2 ^ 63
            \<longrightarrow> total_units g
                  = sum_list (map Units_Sold (filter (\<lambda>r. Sales_Channel r = key g) (rows f)))) \<and>
           transaction_count g = int (length (filter (\<lambda>r. Sales_Channel r = key g) (rows f))))
     \<and> sorted_wrt (\<lambda>a b. total_revenue b \<le> total_revenue a) by_channel"
proof -
  obtain by_region where r: "revenue_by ''Region'' Region p = Inr by_region"
     "distinct (map key by_region)"
     "set (map key by_region) = Region ` set (rows f)"
     "\<forall>g \<in> set by_region.
           total_revenue g = sum_list (map Revenue (filter (\<lambda>r. Region r = key g) (rows f))) \<and>
           is_int64_sum (total_units g)
             (map Units_Sold (filter (\<lambda>r. Region r = key g) (rows f))) \<and>
           (- (2 ^ 63) \<le> sum_list (map Units_Sold (filter (\<lambda>r. Region r = key g) (rows f)))
              \<and> sum_list (map Units_Sold (filter (\<lambda>r. Region r = key g) (rows f))) < 2 ^ 63
            \<longrightarrow> total_units g
                  = sum_list (map Units_Sold (filter (\<lambda>r. Region r = key g) (rows f)))) \<and>
           transaction_count g = int (length (filter (\<lambda>r. Region r = key g) (rows f)))"
     "sorted_wrt (\<lambda>a b. total_revenue b \<le> total_revenue a) by_region"
    using revenue_by_rows [OF assms(1) has_columns_schema(7) [OF assms(2)], of Region]
    by (elim exE conjE) (rule that)
  obtain by_channel where c: "revenue_by ''Sales_Channel'' Sales_Channel p = Inr by_channel"
     "distinct (map key by_channel)"
     "set (map key by_channel) = Sales_Channel ` set (rows f)"
     "\<forall>g \<in> set by_channel.
           total_revenue g = sum_list (map Revenue (filter (\<lambda>r. Sales_Channel r = key g) (rows f))) \<and>
           is_int64_sum (total_units g)
             (map Units_Sold (filter (\<lambda>r. Sales_Channel r = key g) (rows f))) \<and>
           (- (2 ^ 63) \<le> sum_list (map Units_Sold (filter (\<lambda>r. Sales_Channel r = key g) (rows f)))
              \<and> sum_list (map Units_Sold (filter (\<lambda>r. Sales_Channel r = key g) (rows f))) < 2 ^ 63
            \<longrightarrow> total_units g
                  = sum_list (map Units_Sold (filter (\<lambda>r. Sales_Channel r = key g) (rows f)))) \<and>
           transaction_count g = int (length (filter (\<lambda>r. Sales_Channel r = key g) (rows f)))"
     "sorted_wrt (\<lambda>a b. total_revenue b \<le> total_revenue a) by_channel"
    using revenue_by_rows [OF assms(1) has_columns_schema(8) [OF assms(2)], of Sales_Channel]
    by (elim exE conjE) (rule that)
  show ?thesis
    unfolding get_revenue_by_region_def get_revenue_by_channel_def
    by (rule exI [of _ by_region], rule exI [of _ by_channel]) (intro conjI r c)
qed

theorem revenue_by_dimension_witness:
  "df example_processor = Some example_frame \<and> has_columns required_columns example_frame
     \<and> (\<exists>by_region by_channel.
           get_revenue_by_region example_processor = Inr by_region
         \<and> get_revenue_by_channel example_processor = Inr by_channel
         \<and> map key by_region = [''East'', ''West'']
         \<and> map total_revenue by_region = [40, 20]
         \<and> map total_units by_region = [4, 2]
         \<and> set (map key by_channel) = {''Online'', ''Retail''})"
proof -
  have a: "df example_processor = Some example_frame"
    by (simp add: example_processor_def)
  have b: "has_columns required_columns example_frame"
    by (simp add: has_columns_def example_frame_def required_columns_def)
  have "\<exists>by_region by_channel.
           get_revenue_by_region example_processor = Inr by_region
         \<and> get_revenue_by_channel example_processor = Inr by_channel
         \<and> set (map key by_channel) = Sales_Channel ` set (rows example_frame)"
    using revenue_by_dimension [OF a b]
  proof (elim exE conjE, goal_cases)
    case (1 by_region by_channel)
    from 1(1,2,8) show ?case
      by (rule_tac x = by_region in exI, rule_tac x = by_channel in exI) (intro conjI)
  qed
  then obtain by_region by_channel where
    r: "get_revenue_by_region example_processor = Inr by_region" and
    c: "get_revenue_by_channel example_processor = Inr by_channel" and
    ks: "set (map key by_channel) = Sales_Channel ` set (rows example_frame)"
    by (elim exE conjE)
  have "get_revenue_by_region example_processor
          = Inr [\<lparr>key = ''East'', total_revenue = 40, total_units = 4, transaction_count = 2\<rparr>,
                 \<lparr>key = ''West'', total_revenue = 20, total_units = 2, transaction_count = 1\<rparr>]"
    by (simp add: get_revenue_by_region_def revenue_by_def sales_defs has_columns_def
        required_columns_def group_by_def agg_row_def df_sort_def by_revenue_desc_def
        direction_def int64_def)
  with r have "map key by_region = [''East'', ''West'']"
      "map total_revenue by_region = [40, 20]" "map total_units by_region = [4, 2]"
    by auto
  moreover have "set (map key by_channel) = {''Online'', ''Retail''}"
    unfolding ks by (auto simp: sales_defs)
  ultimately show ?thesis
    using a b r c
    by (intro conjI, simp, simp, rule_tac x = by_region in exI, rule_tac x = by_channel in exI)
      simp
qed

text \<open>
  The claim gives each row the units of its value. Two sales of \<open>2^62\<close> units in one
  region have \<open>2^63\<close> units together, and the row holds \<open>- 2^63\<close>: the \<^verbatim>\<open>Int64\<close> sum wraps.
\<close>

theorem revenue_by_dimension_overflow_counterexample:
  "get_revenue_by_region bulk_processor
     = Inr [\<lparr>key = ''East'', total_revenue = 20, total_units = - 9223372036854775808,
             transaction_count = 2\<rparr>]
   \<and> sum_list (map Units_Sold (rows (the (df bulk_processor)))) = 9223372036854775808"
  by (simp add: get_revenue_by_region_def revenue_by_def bulk_processor_def example_sale_def
      has_columns_def required_columns_def group_by_def agg_row_def df_sort_def int64_def)

section \<open>Properties of the monthly trend\<close>

lemma monthly_result_member:
  assumes "row \<in> set (monthly_result xs)"
  shows "row = monthly_agg (key (fst row), filter (\<lambda>r. year_month_of r = key (fst row)) xs)"
    and "filter (\<lambda>r. year_month_of r = key (fst row)) xs \<noteq> []"
proof -
  from assms obtain g where g: "g \<in> set (group_by year_month_of xs)" "row = monthly_agg g"
    by (auto simp: monthly_result_def set_df_sort)
  have k: "key (fst row) = fst g" using g(2) by (simp add: monthly_agg_def agg_row_def)
  have "g = (fst g, filter (\<lambda>r. year_month_of r = fst g) xs)"
    using group_by_member [OF g(1)] by (metis prod.collapse)
  then show "row = monthly_agg (key (fst row), filter (\<lambda>r. year_month_of r = key (fst row)) xs)"
    using g(2) k by simp
  show "filter (\<lambda>r. year_month_of r = key (fst row)) xs \<noteq> []"
    using group_by_nonempty [OF g(1)] group_by_member [OF g(1)] k by simp
qed

lemma monthly_entries_rows:
  assumes "\<forall>row \<in> set rs. snd row \<noteq> None"
  shows "monthly_entries rs =
     Inr (map (\<lambda>row. \<lparr>revenue = total_revenue (fst row), units = total_units (fst row),
                       transactions = transaction_count (fst row),
                       year_month = render_year_month (key (fst row)),
                       avg_price = the (snd row)\<rparr>) rs)"
  using assms by (induction rs) (auto simp: py_float_def)

lemma months_sorted:
  "sorted_wrt (\<lambda>a b. fst a < fst b \<or> fst a = fst b \<and> snd a \<le> snd b)
     (map (\<lambda>row. key (fst row)) (monthly_result xs))"
proof -
  have "sorted_wrt (direction False (\<lambda>a b. key (fst a) \<le> key (fst b))) (monthly_result xs)"
    unfolding monthly_result_def
    by (rule sorted_df_sort) (auto simp: direction_def)
  then have "sorted_wrt (\<lambda>a b. key (fst a) \<le> key (fst b)) (monthly_result xs)"
    by (simp add: direction_def)
  then have "sorted_wrt (\<lambda>a b. fst (key (fst a)) < fst (key (fst b))
       \<or> fst (key (fst a)) = fst (key (fst b)) \<and> snd (key (fst a)) \<le> snd (key (fst b)))
     (monthly_result xs)"
    by (rule sorted_wrt_mono_rel [rotated]) (auto simp: less_eq_prod_def)
  then show ?thesis by (simp add: sorted_wrt_map)
qed

lemma render_calendar_month:
  assumes "1 \<le> y" "y \<le> 9999" "1 \<le> m" "m \<le> 12"
  shows "render_year_month (y, m) = year_digits y @ ''-'' @ two_digits m"
  using assms by (simp add: render_year_month_def py_str_year fmt_two_digits)

lemma same_month:
  "(year_month_of r = ym) = (fst (Date r) = fst ym \<and> fst (snd (Date r)) = snd ym)"
  by (auto simp: year_month_of_def dt_year_def dt_month_def)

text \<open>
  C5, as the code has it. For a frame with the columns of the schema whose dates are
  dates of the calendar, \<^verbatim>\<open>get_monthly_trends\<close> returns one entry for each (year, month)
  that occurs: the months of the entries are distinct, are exactly those of the records,
  and ascend by year and then by month. An entry renders its month as the year in decimal
  without padding, a hyphen and the month on two digits, and holds the sum of revenue,
  the 64-bit sum of units (the exact sum when that lies in the range of \<^verbatim>\<open>Int64\<close>), the
  number and the mean price of the records of the month.
\<close>

theorem get_monthly_trends_rows:
  assumes "df p = Some f" and "has_columns required_columns f"
    and "\<forall>r \<in> set (rows f). calendar_date (Date r)"
  shows "\<exists>trends months.
      get_monthly_trends p = Inr trends
    \<and> distinct months
    \<and> set months = (\<lambda>r. (fst (Date r), fst (snd (Date r)))) ` set (rows f)
    \<and> sorted_wrt (\<lambda>a b. fst a < fst b \<or> fst a = fst b \<and> snd a \<le> snd b) months
    \<and> length trends = length months
    \<and> (\<forall>i < length months.
          (let y = fst (months ! i); m = snd (months ! i);
               grp = filter (\<lambda>r. fst (Date r) = y \<and> fst (snd (Date r)) = m) (rows f)
           in year_month (trends ! i) = year_digits y @ ''-'' @ two_digits m
            \<and> grp \<noteq> []
            \<and> revenue (trends ! i) = sum_list (map Revenue grp)
            \<and> is_int64_sum (units (trends ! i)) (map Units_Sold grp)
            \<and> (- (2 ^ 63) \<le> sum_list (map Units_Sold grp)
                 \<and> sum_list (map Units_Sold grp) < 2 ^ 63
               \<longrightarrow> units (trends ! i) = sum_list (map Units_Sold grp))
            \<and> transactions (trends ! i) = int (length grp)
            \<and> avg_price (trends ! i) = sum_list (map Price_Per_Unit grp) / real (length grp)))"
proof -
  define rs where "rs = monthly_result (rows f)"
  define months where "months = map (\<lambda>row. key (fst row)) rs"
  define trends where "trends =
     map (\<lambda>row. \<lparr>revenue = total_revenue (fst row), units = total_units (fst row),
                  transactions = transaction_count (fst row),
                  year_month = render_year_month (key (fst row)),
                  avg_price = the (snd row)\<rparr>) rs"
  have mem: "row = monthly_agg (key (fst row), filter (\<lambda>r. year_month_of r = key (fst row)) (rows f))"
      "filter (\<lambda>r. year_month_of r = key (fst row)) (rows f) \<noteq> []"
    if "row \<in> set rs" for row
    using that monthly_result_member [of row "rows f"] by (simp_all add: rs_def)
  have some: "\<forall>row \<in> set rs. snd row \<noteq> None"
  proof
    fix row assume r: "row \<in> set rs"
    show "snd row \<noteq> None"
      by (subst mem(1) [OF r]) (simp add: monthly_agg_def series_mean_def mem(2) [OF r])
  qed
  have run: "get_monthly_trends p = Inr trends"
    using assms(1) has_columns_schema(9) [OF assms(2)] monthly_entries_rows [OF some]
    by (simp add: get_monthly_trends_def trends_def rs_def)
  have yf: "year_month_of = (\<lambda>r. (fst (Date r), fst (snd (Date r))))"
    by (rule ext) (simp add: year_month_of_def dt_year_def dt_month_def)
  have d: "distinct months"
    and s: "set months = (\<lambda>r. (fst (Date r), fst (snd (Date r)))) ` set (rows f)"
    unfolding months_def rs_def monthly_result_def
    using keys_of_sorted_groups [of "\<lambda>row. key (fst row)" monthly_agg _ year_month_of "rows f"]
    by (simp_all add: monthly_agg_def agg_row_def yf)
  have so: "sorted_wrt (\<lambda>a b. fst a < fst b \<or> fst a = fst b \<and> snd a \<le> snd b) months"
    unfolding months_def rs_def by (rule months_sorted)
  have len: "length trends = length months"
    by (simp add: trends_def months_def)
  have each: "(let y = fst (months ! i); m = snd (months ! i);
               grp = filter (\<lambda>r. fst (Date r) = y \<and> fst (snd (Date r)) = m) (rows f)
           in year_month (trends ! i) = year_digits y @ ''-'' @ two_digits m
            \<and> grp \<noteq> []
            \<and> revenue (trends ! i) = sum_list (map Revenue grp)
            \<and> is_int64_sum (units (trends ! i)) (map Units_Sold grp)
            \<and> (- (2 ^ 63) \<le> sum_list (map Units_Sold grp)
                 \<and> sum_list (map Units_Sold grp) < 2 ^ 63
               \<longrightarrow> units (trends ! i) = sum_list (map Units_Sold grp))
            \<and> transactions (trends ! i) = int (length grp)
            \<and> avg_price (trends ! i) = sum_list (map Price_Per_Unit grp) / real (length grp))"
    if i: "i < length months" for i
  proof -
    let ?row = "rs ! i"
    let ?grp = "filter (\<lambda>r. year_month_of r = key (fst ?row)) (rows f)"
    from i have in_rs: "?row \<in> set rs" and il: "i < length rs" by (simp_all add: months_def)
    have m: "months ! i = key (fst ?row)" using il by (simp add: months_def)
    have row: "?row = monthly_agg (key (fst ?row), ?grp)" and ne: "?grp \<noteq> []"
      using mem [OF in_rs] by simp_all
    have g: "filter (\<lambda>r. fst (Date r) = fst (months ! i) \<and> fst (snd (Date r)) = snd (months ! i))
               (rows f) = ?grp"
      by (simp add: same_month m)
    from ne obtain r where r: "r \<in> set (rows f)" "year_month_of r = key (fst ?row)"
      by (auto simp: filter_empty_conv)
    have c: "calendar_date (Date r)" using assms(3) r(1) by simp
    have "key (fst ?row) = (fst (Date r), fst (snd (Date r)))"
      using r(2) by (simp add: year_month_of_def dt_year_def dt_month_def)
    then have ym: "render_year_month (key (fst ?row))
        = year_digits (fst (key (fst ?row))) @ ''-'' @ two_digits (snd (key (fst ?row)))"
      using c by (simp add: calendar_date_def render_calendar_month)
    have f: "fst ?row = agg_row (key (fst ?row), ?grp)"
      by (subst row) (simp add: monthly_agg_def)
    have av: "the (snd ?row) = sum_list (map Price_Per_Unit ?grp) / real (length ?grp)"
      by (subst row) (simp add: monthly_agg_def series_mean_def ne)
    have t: "trends ! i = \<lparr>revenue = total_revenue (fst ?row), units = total_units (fst ?row),
                  transactions = transaction_count (fst ?row),
                  year_month = render_year_month (key (fst ?row)),
                  avg_price = the (snd ?row)\<rparr>"
      using il by (simp add: trends_def)
    have 1: "year_month (trends ! i) = year_digits (fst (months ! i)) @ ''-'' @ two_digits (snd (months ! i))"
      by (simp add: t ym m)
    have 2: "revenue (trends ! i) = sum_list (map Revenue ?grp)"
      by (simp add: t) (subst f, simp add: agg_row_def)
    have 3: "is_int64_sum (units (trends ! i)) (map Units_Sold ?grp)"
      using agg_row_units(1) [where v = "key (fst ?row)" and xs = ?grp] by (simp add: t flip: f)
    have 4: "- (2 ^ 63) \<le> sum_list (map Units_Sold ?grp) \<and> sum_list (map Units_Sold ?grp) < 2 ^ 63
               \<longrightarrow> units (trends ! i) = sum_list (map Units_Sold ?grp)"
      using agg_row_units(2) [where v = "key (fst ?row)" and xs = ?grp] by (simp add: t flip: f)
    have 5: "transactions (trends ! i) = int (length ?grp)"
      by (simp add: t) (subst f, simp add: agg_row_def)
    have 6: "avg_price (trends ! i) = sum_list (map Price_Per_Unit ?grp) / real (length ?grp)"
      by (simp add: t av)
    show ?thesis
      unfolding Let_def g using 1 ne 2 3 4 5 6 by (intro conjI)
  qed
  show ?thesis
    using run d s so len each
    by (rule_tac x = trends in exI, rule_tac x = months in exI) (intro conjI allI impI)
qed

lemma render_example_months:
  "render_year_month (2025, 1) = ''2025-01''" "render_year_month (2025, 2) = ''2025-02''"
  using render_calendar_month [of 2025 1] render_calendar_month [of 2025 2]
  by (simp_all add: year_digits_def two_digits_def)

theorem get_monthly_trends_rows_witness:
  "df example_processor = Some example_frame \<and> has_columns required_columns example_frame
     \<and> map (\<lambda>r. calendar_date (Date r)) (rows example_frame) = [True, True, True]
     \<and> (\<exists>trends. get_monthly_trends example_processor = Inr trends
          \<and> map year_month trends = [''2025-01'', ''2025-02'']
          \<and> map revenue trends = [30, 30]
          \<and> map units trends = [3, 3]
          \<and> map transactions trends = [2, 1]
          \<and> map avg_price trends = [10, 10])"
proof -
  have a: "df example_processor = Some example_frame"
    by (simp add: example_processor_def)
  have b: "has_columns required_columns example_frame"
    by (simp add: has_columns_def example_frame_def required_columns_def)
  have c: "\<forall>r \<in> set (rows example_frame). calendar_date (Date r)"
    by (simp add: sales_defs calendar_date_def)
  have "\<exists>trends. get_monthly_trends example_processor = Inr trends"
    using get_monthly_trends_rows [OF a b c]
  proof (elim exE conjE, goal_cases)
    case (1 trends months)
    from 1(1) show ?case by (rule exI)
  qed
  then obtain trends where run: "get_monthly_trends example_processor = Inr trends" ..
  have res: "monthly_result [sale_jan_a, sale_jan_b, sale_feb]
          = [(\<lparr>key = (2025, 1), total_revenue = 30, total_units = 3, transaction_count = 2\<rparr>,
              Some 10),
             (\<lparr>key = (2025, 2), total_revenue = 30, total_units = 3, transaction_count = 1\<rparr>,
              Some 10)]"
    by (simp add: monthly_result_def group_by_def monthly_agg_def agg_row_def series_mean_def
        df_sort_def direction_def year_month_of_def dt_year_def dt_month_def int64_def
        sale_jan_a_def sale_jan_b_def sale_feb_def example_sale_def)
  have "get_monthly_trends example_processor
          = Inr [\<lparr>revenue = 30, units = 3, transactions = 2, year_month = ''2025-01'',
                   avg_price = 10\<rparr>,
                 \<lparr>revenue = 30, units = 3, transactions = 1, year_month = ''2025-02'',
                   avg_price = 10\<rparr>]"
    by (simp add: get_monthly_trends_def example_processor_def example_frame_def
        has_columns_def required_columns_def res py_float_def render_example_months)
  with run have "map year_month trends = [''2025-01'', ''2025-02'']"
    "map revenue trends = [30, 30]" "map units trends = [3, 3]"
    "map transactions trends = [2, 1]" "map avg_price trends = [10, 10]"
    by auto
  moreover have "map (\<lambda>r. calendar_date (Date r)) (rows example_frame) = [True, True, True]"
    by (simp add: sales_defs calendar_date_def)
  ultimately show ?thesis
    using a b run by (intro conjI, simp, simp, simp, rule_tac x = trends in exI) simp
qed

text \<open>
  The claim renders the month as a zero-padded \<^verbatim>\<open>YYYY-MM\<close>. The code pads the month only:
  a sale of January of the year 999 gives the entry \<^verbatim>\<open>999-01\<close>, of six characters.
\<close>

theorem get_monthly_trends_year_counterexample:
  "calendar_date (999, 1, 1)
   \<and> get_monthly_trends old_processor
       = Inr [\<lparr>revenue = 10, units = 1, transactions = 1, year_month = ''999-01'',
               avg_price = 10\<rparr>]"
proof -
  have y: "render_year_month (999, 1) = ''999-01''"
    using render_calendar_month [of 999 1] by (simp add: year_digits_def two_digits_def)
  have res: "monthly_result [example_sale 1 (999, 1, 1) 1 10 ''East'' ''Online'']
          = [(\<lparr>key = (999, 1), total_revenue = 10, total_units = 1, transaction_count = 1\<rparr>,
              Some 10)]"
    by (simp add: monthly_result_def group_by_def monthly_agg_def agg_row_def series_mean_def
        df_sort_def direction_def year_month_of_def dt_year_def dt_month_def int64_def
        example_sale_def)
  show ?thesis
    by (simp add: calendar_date_def get_monthly_trends_def old_processor_def
        has_columns_def required_columns_def res py_float_def y)
qed

section \<open>Properties of the request layer\<close>









text \<open>
  A column beyond the seven is a column of the frame: a request that sorts by it is
  answered with status 200.
\<close>

lemma get_data_extra_sort_column:
  "status (get_data \<lparr>files = Map.empty, processor = notes_processor\<rparr>
             (no_args\<lparr>arg_sort_by := Some ''Notes''\<rparr>)) = 200"
  by (simp add: get_data_def no_args_def int_arg_def float_arg_def list_arg_def date_arg_def
      no_filters_def notes_processor_def get_table_data_def has_columns_def required_columns_def
      df_slice_def Let_def)




section \<open>Properties of the upload\<close>

lemma temp_path_distinct:
  "path_join UPLOAD_FOLDER (''temp_'' @ name) \<noteq> DATA_FILE"
  "path_join UPLOAD_FOLDER (''temp_'' @ name) \<noteq> path_join UPLOAD_FOLDER (''backup_'' @ now @ ''.csv'')"
  by (simp_all add: path_join_def UPLOAD_FOLDER_def DATA_FILE_def)

lemma DataProcessor_df:
  "df (DataProcessor fs path) =
     (case fs path of Some (Table cs rs) \<Rightarrow> Some \<lparr>columns = cs, rows = rs\<rparr> | _ \<Rightarrow> None)"
  by (simp add: DataProcessor_def load_data_def read_csv_def split: option.splits csv.splits)

lemma upload_file_invalid:
  assumes "filename up \<noteq> []" and "allowed_file (filename up)"
    and "df (DataProcessor ((files srv)(path_join UPLOAD_FOLDER
              (''temp_'' @ secure_filename (filename up)) \<mapsto> content up))
            (path_join UPLOAD_FOLDER (''temp_'' @ secure_filename (filename up)))) = None"
  shows "upload_file secure_filename now srv (Some up) =
     (Reply 400 (Inl Invalid_CSV_file_format),
      srv\<lparr>files := ((files srv)(path_join UPLOAD_FOLDER
              (''temp_'' @ secure_filename (filename up)) \<mapsto> content up))
            (path_join UPLOAD_FOLDER (''temp_'' @ secure_filename (filename up)) := None)\<rparr>)"
  using assms by (simp add: upload_file_def Let_def)

lemma upload_file_missing:
  assumes "filename up \<noteq> []" and "allowed_file (filename up)"
    and "df (DataProcessor ((files srv)(path_join UPLOAD_FOLDER
              (''temp_'' @ secure_filename (filename up)) \<mapsto> content up))
            (path_join UPLOAD_FOLDER (''temp_'' @ secure_filename (filename up)))) = Some t"
    and "\<not> set required_columns \<subseteq> set (columns t)"
  shows "upload_file secure_filename now srv (Some up) =
     (Reply 400 (Inl CSV_must_contain_columns),
      srv\<lparr>files := ((files srv)(path_join UPLOAD_FOLDER
              (''temp_'' @ secure_filename (filename up)) \<mapsto> content up))
            (path_join UPLOAD_FOLDER (''temp_'' @ secure_filename (filename up)) := None)\<rparr>)"
  using assms by (simp add: upload_file_def Let_def)

text \<open>
  C8. An upload whose source cannot be read, or is read and lacks a required column, is
  answered with status 400 and changes nothing but the temporary file: the global
  \<^verbatim>\<open>processor\<close> is the one before, every file other than the temporary one is as
  before (the data file and the backup path among them, so no backup is made), and once
  the upload has passed the checks of its name the temporary file is removed. The
  checks come before the backup and the move, so nothing of the replacement has
  happened when they fail. (One request at a time; the server's threads are not modelled.)
\<close>

theorem upload_file_rejected:
  assumes "content file = Unreadable
             \<or> (\<exists>cs rs. content file = Table cs rs \<and> \<not> set required_columns \<subseteq> set cs)"
  shows "status (fst (upload_file secure_filename now srv (Some file))) = 400
     \<and> processor (snd (upload_file secure_filename now srv (Some file))) = processor srv
     \<and> (\<forall>path. path \<noteq> path_join UPLOAD_FOLDER (''temp_'' @ secure_filename (filename file))
           \<longrightarrow> files (snd (upload_file secure_filename now srv (Some file))) path
                 = files srv path)
     \<and> files (snd (upload_file secure_filename now srv (Some file))) DATA_FILE
          = files srv DATA_FILE
     \<and> files (snd (upload_file secure_filename now srv (Some file)))
            (path_join UPLOAD_FOLDER (''backup_'' @ now @ ''.csv''))
          = files srv (path_join UPLOAD_FOLDER (''backup_'' @ now @ ''.csv''))
     \<and> (filename file \<noteq> [] \<and> allowed_file (filename file)
          \<longrightarrow> files (snd (upload_file secure_filename now srv (Some file)))
                  (path_join UPLOAD_FOLDER (''temp_'' @ secure_filename (filename file)))
                = None)"
proof -
  let ?temp = "path_join UPLOAD_FOLDER (''temp_'' @ secure_filename (filename file))"
  let ?saved = "(files srv)(?temp \<mapsto> content file)"
  consider (early) "filename file = [] \<or> \<not> allowed_file (filename file)"
    | (checked) "filename file \<noteq> []" "allowed_file (filename file)" by blast
  then show ?thesis
  proof cases
    case early
    then have "snd (upload_file secure_filename now srv (Some file)) = srv"
      "status (fst (upload_file secure_filename now srv (Some file))) = 400"
      by (auto simp: upload_file_def)
    with early show ?thesis by auto
  next
    case checked
    have rejected: "df (DataProcessor ?saved ?temp) = None
        \<or> (\<exists>t. df (DataProcessor ?saved ?temp) = Some t \<and> \<not> set required_columns \<subseteq> set (columns t))"
      using assms by (auto simp: DataProcessor_df)
    then have "snd (upload_file secure_filename now srv (Some file))
                 = srv\<lparr>files := ?saved(?temp := None)\<rparr>
        \<and> status (fst (upload_file secure_filename now srv (Some file))) = 400"
    proof
      assume "df (DataProcessor ?saved ?temp) = None"
      from upload_file_invalid
          [where up = "file" and srv = srv and secure_filename = secure_filename,
            OF checked this]
      show ?thesis by simp
    next
      assume "\<exists>t. df (DataProcessor ?saved ?temp) = Some t
                \<and> \<not> set required_columns \<subseteq> set (columns t)"
      then obtain t where "df (DataProcessor ?saved ?temp) = Some t"
        "\<not> set required_columns \<subseteq> set (columns t)" by blast
      from upload_file_missing
          [where up = "file" and srv = srv and secure_filename = secure_filename,
            OF checked this]
      show ?thesis by simp
    qed
    then show ?thesis
      using temp_path_distinct(1) [of "secure_filename (filename file)"]
        temp_path_distinct(2) [of "secure_filename (filename file)" now]
      by (auto simp del: append.simps)
  qed
qed

theorem upload_file_rejected_witness:
  "content upload_without_region
       = Table [''Sale_ID'', ''Date'', ''Units_Sold'', ''Price_Per_Unit'', ''Revenue'',
                ''Sales_Channel''] [sale_30]
     \<and> ''Region'' \<in> set required_columns
     \<and> upload_file (\<lambda>name. name) ''20250101_120000'' stored_server (Some upload_without_region)
         = (Reply 400 (Inl CSV_must_contain_columns), stored_server)"
proof -
  have a: "content upload_without_region = Unreadable
      \<or> (\<exists>cs rs. content upload_without_region = Table cs rs
            \<and> \<not> set required_columns \<subseteq> set cs)"
    by (simp add: upload_without_region_def required_columns_def)
  have allowed: "allowed_file ''new.csv''"
    by (simp add: allowed_file_def ALLOWED_EXTENSIONS_def lower_char_def)
  note r = upload_file_rejected [OF a, of "\<lambda>name. name" "''20250101_120000''" stored_server]
  have st: "fst (upload_file (\<lambda>name. name) ''20250101_120000'' stored_server
                  (Some upload_without_region)) = Reply 400 (Inl CSV_must_contain_columns)"
    using allowed
    by (simp add: upload_file_def Let_def upload_without_region_def DataProcessor_df
        required_columns_def)
  have "files (snd (upload_file (\<lambda>name. name) ''20250101_120000'' stored_server
                  (Some upload_without_region))) path = files stored_server path" for path
  proof (cases "path = path_join UPLOAD_FOLDER (''temp_'' @ filename upload_without_region)")
    case True
    have "files stored_server path = None"
      unfolding True
      by (simp add: stored_server_def upload_without_region_def path_join_def
          UPLOAD_FOLDER_def DATA_FILE_def)
    then show ?thesis
      using r allowed unfolding True by (simp add: upload_without_region_def)
  next
    case False
    then show ?thesis using r by simp
  qed
  then have "files (snd (upload_file (\<lambda>name. name) ''20250101_120000'' stored_server
                  (Some upload_without_region))) = files stored_server"
    by (rule ext)
  moreover have "processor (snd (upload_file (\<lambda>name. name) ''20250101_120000'' stored_server
                  (Some upload_without_region))) = processor stored_server"
    using r by simp
  ultimately have "snd (upload_file (\<lambda>name. name) ''20250101_120000'' stored_server
                  (Some upload_without_region)) = stored_server"
    by simp
  with st show ?thesis
    by (simp add: prod_eq_iff upload_without_region_def required_columns_def)
qed

section \<open>Properties of loading\<close>

text \<open>
  C9, as the code has it. A load whose read raises (no file, or a file polars cannot
  read with the types asked for) leaves the processor with no frame, whatever it held
  before; a file that is read becomes the frame with the columns it has, whether or not
  the required ones are among them. The path of the processor stays.
\<close>

theorem load_data_outcome:
  "(\<forall>e. read_csv fs (csv_path p) = Inl e \<longrightarrow> df (load_data fs p) = None)
     \<and> (\<forall>cs rs. fs (csv_path p) = Some (Table cs rs) \<longrightarrow>
           df (load_data fs p) = Some \<lparr>columns = cs, rows = rs\<rparr>)
     \<and> (fs (csv_path p) = None \<or> fs (csv_path p) = Some Unreadable \<longrightarrow>
           df (load_data fs p) = None)
     \<and> csv_path (load_data fs p) = csv_path p"
  by (auto simp: load_data_def read_csv_def split: option.splits csv.splits sum.splits)

theorem load_data_outcome_witness:
  "read_csv Map.empty (csv_path (processor stored_server)) = Inl FileNotFoundError
     \<and> df (processor stored_server) = Some example_frame
     \<and> df (load_data Map.empty (processor stored_server)) = None
     \<and> files stored_server (csv_path (processor stored_server))
           = Some (Table required_columns [sale_jan_a, sale_jan_b, sale_feb])
     \<and> df (load_data (files stored_server) (processor stored_server)) = Some example_frame"
proof -
  have a: "read_csv Map.empty (csv_path (processor stored_server)) = Inl FileNotFoundError"
    by (simp add: read_csv_def)
  have b: "files stored_server (csv_path (processor stored_server))
           = Some (Table required_columns [sale_jan_a, sale_jan_b, sale_feb])"
    by (simp add: stored_server_def)
  have "df (load_data Map.empty (processor stored_server)) = None"
    using load_data_outcome [of Map.empty "processor stored_server"] a by blast
  moreover have "df (load_data (files stored_server) (processor stored_server))
      = Some \<lparr>columns = required_columns, rows = [sale_jan_a, sale_jan_b, sale_feb]\<rparr>"
    using load_data_outcome [of "files stored_server" "processor stored_server"] b by blast
  ultimately show ?thesis
    using a b by (simp add: stored_server_def example_frame_def)
qed

text \<open>
  The claim fails twice: a processor that holds the example frame has none after a load
  that fails, and a file with the single column \<^verbatim>\<open>Sale_ID\<close> is loaded, not rejected.
\<close>

theorem load_data_failed_counterexample:
  "df example_processor = Some example_frame
     \<and> read_csv [''sales.csv'' \<mapsto> Unreadable] (csv_path example_processor) = Inl ComputeError
     \<and> df (load_data [''sales.csv'' \<mapsto> Unreadable] example_processor) = None
     \<and> \<not> set required_columns \<subseteq> set [''Sale_ID'']
     \<and> df (load_data [''sales.csv'' \<mapsto> Table [''Sale_ID''] []] example_processor)
           = Some \<lparr>columns = [''Sale_ID''], rows = []\<rparr>"
  by (simp add: load_data_def read_csv_def example_processor_def required_columns_def)

section \<open>Queries without a dataset\<close>

text \<open>
  C10. When \<^verbatim>\<open>df\<close> is \<^verbatim>\<open>None\<close> no query raises: \<^verbatim>\<open>get_kpi_metrics\<close> and
  \<^verbatim>\<open>get_filter_options\<close> return the empty dictionary, the breakdowns, the trends and
  the price distribution return the empty list, \<^verbatim>\<open>filter_data\<close> returns \<^verbatim>\<open>None\<close>, and
  \<^verbatim>\<open>get_table_data\<close> returns no data, total 0 and pages 0 without the key
  \<^verbatim>\<open>current_page\<close>, which every result on a loaded frame has.
\<close>

theorem no_dataset_sentinels:
  assumes "df p = None"
  shows "get_kpi_metrics p = Inr Map.empty
     \<and> get_filter_options p = Inr Map.empty
     \<and> get_revenue_by_region p = Inr []
     \<and> get_revenue_by_channel p = Inr []
     \<and> get_daily_revenue_trend p = Inr []
     \<and> get_monthly_trends p = Inr []
     \<and> get_price_distribution p = Inr []
     \<and> filter_data p fs = Inr None
     \<and> get_table_data p page per_page sort_by sort_order
          = Inr \<lparr>data = [], total = 0, pages = 0, current_page = None\<rparr>
     \<and> (\<forall>q t. df q \<noteq> None
            \<longrightarrow> get_table_data q page per_page sort_by sort_order = Inr t
            \<longrightarrow> current_page t = Some page)"
proof -
  have populated: "current_page t = Some page"
    if "df q \<noteq> None" "get_table_data q page per_page sort_by sort_order = Inr t" for q t
    using that
    by (auto simp: get_table_data_def Let_def split: option.splits if_splits sum.splits)
  show ?thesis
    using assms populated
    by (simp add: get_kpi_metrics_def get_filter_options_def get_revenue_by_region_def
        get_revenue_by_channel_def revenue_by_def get_daily_revenue_trend_def
        get_monthly_trends_def get_price_distribution_def filter_data_def get_table_data_def)
qed

theorem no_dataset_sentinels_witness:
  "df no_dataset = None
     \<and> get_kpi_metrics no_dataset = Inr Map.empty
     \<and> get_monthly_trends no_dataset = Inr []
     \<and> filter_data no_dataset only_east = Inr None
     \<and> get_table_data no_dataset 1 50 ''Date'' ''desc''
          = Inr \<lparr>data = [], total = 0, pages = 0, current_page = None\<rparr>
     \<and> (\<exists>t. get_table_data table_processor 1 50 ''Date'' ''desc'' = Inr t
            \<and> current_page t = Some 1)"
proof -
  have a: "df no_dataset = None"
    by (simp add: no_dataset_def)
  note s = no_dataset_sentinels [OF a, of only_east 1 50 "''Date''" "''desc''"]
  have b: "df table_processor \<noteq> None"
    by (simp add: table_processor_def)
  obtain t where t: "get_table_data table_processor 1 50 ''Date'' ''desc'' = Inr t"
    by (simp add: get_table_data_def table_processor_def has_columns_def
        required_columns_def Let_def df_slice_def)
  with s b have "current_page t = Some 1" by blast
  with a s t show ?thesis by simp
qed

end
